theory Spec2Isabelle
  imports
    Complex_Main
    "HOL-Library.Log_Nat"
    "HOL-Library.Product_Lexorder"
    "HOL-Library.List_Lexorder"
    "HOL-Library.Char_ord"
    "HOL-Library.Extended_Nat"
begin

section \<open>JavaScript strings\<close>

text \<open>
  A JavaScript string is a sequence of UTF-16 code units. Literals of the source that are
  plain ASCII are written with \<open>ascii\<close>; the others are given by their code units.
\<close>

type_synonym jsstring = "nat list"

definition ascii :: "string \<Rightarrow> jsstring" where
  "ascii s = map of_char s"

text \<open>
  \<^verbatim>\<open>String.prototype.trim\<close> removes the WhiteSpace and LineTerminator code units of
  ECMAScript from both ends: TAB, LF, VT, FF, CR, SP, NBSP, U+1680, U+2000..U+200A,
  U+2028, U+2029, U+202F, U+205F, U+3000 and U+FEFF.
\<close>

definition is_white_space :: "nat \<Rightarrow> bool" where
  "is_white_space c =
     (c \<in> {9, 10, 11, 12, 13, 32, 160, 5760, 8232, 8233, 8239, 8287, 12288, 65279}
      \<or> (8192 \<le> c \<and> c \<le> 8202))"

definition trim :: "jsstring \<Rightarrow> jsstring" where
  "trim s = rev (dropWhile is_white_space (rev (dropWhile is_white_space s)))"

text \<open>\<^verbatim>\<open>Number.prototype.toString\<close> on a non-negative integer: its decimal digits.\<close>

fun decimal :: "nat \<Rightarrow> jsstring" where
  "decimal n = (if n < 10 then [48 + n] else decimal (n div 10) @ [48 + n mod 10])"

declare decimal.simps [simp del]

text \<open>\<^verbatim>\<open>a || b\<close> where \<open>a\<close> is a string or undefined: the empty string and undefined are falsy.\<close>

fun str_or :: "jsstring option \<Rightarrow> jsstring \<Rightarrow> jsstring" where
  "str_or None b = b"
| "str_or (Some s) b = (if s = [] then b else s)"

text \<open>\<^verbatim>\<open>a || []\<close> where \<open>a\<close> is an array or undefined: every array is truthy, also the empty one.\<close>

fun or_empty :: "'a list option \<Rightarrow> 'a list" where
  "or_empty None = []"
| "or_empty (Some xs) = xs"


section \<open>The API service layer (services/api.js)\<close>

datatype json = JStr jsstring | JArr "json list" | JObj "(jsstring \<times> json) list"

record http_request =
  http_method :: jsstring
  url :: jsstring
  body :: "(jsstring \<times> json) list"

text \<open>A passage citation as \<^verbatim>\<open>MessageBubble\<close> reads it; every property may be missing.\<close>

record source =
  document :: "jsstring option"
  title :: "jsstring option"
  chunk :: "jsstring option"

record entity =
  entity_name :: jsstring
  entity_type :: jsstring
  description :: jsstring

text \<open>
  The body of a successful reply of \<^verbatim>\<open>POST /chat\<close> (\<^verbatim>\<open>r.data\<close>). The hook reads
  \<^verbatim>\<open>data.answer\<close>, \<^verbatim>\<open>data.sources\<close>, \<^verbatim>\<open>data.steps_taken\<close> and \<^verbatim>\<open>data.entities\<close>; the API
  reference documents \<^verbatim>\<open>session_id\<close> as well. A property that is missing is \<open>None\<close>.
  The fields \<open>data_sources\<close> and \<open>data_entities\<close> are \<^verbatim>\<open>data.sources\<close> and \<^verbatim>\<open>data.entities\<close>.
\<close>

record chat_data =
  answer :: "jsstring option"
  session_id :: "jsstring option"
  data_sources :: "source list option"
  steps_taken :: "jsstring list option"
  data_entities :: "entity list option"

text \<open>
  What the response interceptor reads of a failed request: \<^verbatim>\<open>error.response?.data?.detail\<close>
  (the API reports errors with a string there) and \<^verbatim>\<open>error.message\<close>, each possibly undefined.
\<close>

record axios_error =
  response_detail :: "jsstring option"
  error_message :: "jsstring option"

text \<open>
  The response interceptor: \<^verbatim>\<open>error.response?.data?.detail || error.message || 'An error occurred'\<close>,
  rejected as \<^verbatim>\<open>new Error(message)\<close>.
\<close>

definition interceptor_message :: "axios_error \<Rightarrow> jsstring" where
  "interceptor_message e =
     str_or (response_detail e) (str_or (error_message e) (ascii ''An error occurred''))"

datatype 'a transport_result = Response 'a | Failure axios_error

text \<open>A settled promise; a rejection carries \<^verbatim>\<open>err.message\<close>.\<close>

datatype 'a settled = Fulfilled 'a | Rejected jsstring

text \<open>\<^verbatim>\<open>api.post('/chat', { query })\<close>: the request that \<^verbatim>\<open>sendMessage(query)\<close> submits.\<close>

definition sendMessage_request :: "jsstring \<Rightarrow> http_request" where
  "sendMessage_request query =
     \<lparr>http_method = ascii ''POST'', url = ascii ''/chat'', body = [(ascii ''query'', JStr query)]\<rparr>"

definition sendMessage ::
  "(http_request \<Rightarrow> chat_data transport_result) \<Rightarrow> jsstring \<Rightarrow> chat_data settled" where
  "sendMessage backend query =
     (case backend (sendMessage_request query) of
        Response d \<Rightarrow> Fulfilled d
      | Failure e \<Rightarrow> Rejected (interceptor_message e))"


section \<open>The chat hook (hooks/useChat.js)\<close>

datatype role = User | Assistant

record message_fields =
  role :: role
  content :: "jsstring option"
  sources :: "source list option"
  agent_trail :: "jsstring list option"
  entities :: "entity list option"

record message = message_fields +
  msg_id :: jsstring
  timestamp :: nat

record chat_state =
  messages :: "message list"
  isLoading :: bool
  error :: "jsstring option"

text \<open>
  \<^verbatim>\<open>addMessage\<close> appends the message with \<^verbatim>\<open>id: Date.now().toString()\<close> and
  \<^verbatim>\<open>timestamp: Date.now()\<close>; the two clock readings are arguments.
\<close>

definition addMessage :: "message_fields \<Rightarrow> nat \<Rightarrow> nat \<Rightarrow> message list \<Rightarrow> message list" where
  "addMessage m now_id now_ts prev =
     prev @ [\<lparr>role = role m, content = content m, sources = sources m,
              agent_trail = agent_trail m, entities = entities m,
              msg_id = decimal now_id, timestamp = now_ts\<rparr>]"

text \<open>The four readings of \<^verbatim>\<open>Date.now()\<close> that one call of \<^verbatim>\<open>send\<close> makes.\<close>

record clock =
  user_id_now :: nat
  user_ts_now :: nat
  reply_id_now :: nat
  reply_ts_now :: nat

definition user_fields :: "jsstring \<Rightarrow> message_fields" where
  "user_fields query =
     \<lparr>role = User, content = Some query, sources = None, agent_trail = None, entities = None\<rparr>"

text \<open>The message of the \<^verbatim>\<open>try\<close> branch, built from the reply.\<close>

definition reply_fields :: "'a chat_data_scheme \<Rightarrow> message_fields" where
  "reply_fields d =
     \<lparr>role = Assistant, content = answer d,
      sources = Some (or_empty (data_sources d)),
      agent_trail = Some (or_empty (steps_taken d)),
      entities = Some (or_empty (data_entities d))\<rparr>"

text \<open>The prefix of the \<^verbatim>\<open>catch\<close> branch: WARNING SIGN, VARIATION SELECTOR-16, then \<open>" Error: "\<close>.\<close>

definition error_prefix :: jsstring where
  "error_prefix = [9888, 65039] @ ascii '' Error: ''"

definition failure_fields :: "jsstring \<Rightarrow> message_fields" where
  "failure_fields msg =
     \<lparr>role = Assistant, content = Some (error_prefix @ msg),
      sources = Some [], agent_trail = Some [], entities = Some []\<rparr>"

text \<open>
  \<^verbatim>\<open>send(query)\<close> is an async function; it is cut at its \<^verbatim>\<open>await\<close>. \<open>send_start\<close> is
  the state while the request is in flight (user message added, \<open>isLoading\<close> set, \<open>error\<close>
  cleared), \<open>send_settle\<close> the \<^verbatim>\<open>try\<close>/\<^verbatim>\<open>catch\<close>/\<^verbatim>\<open>finally\<close> that follows the settled promise.
\<close>

definition send_start :: "clock \<Rightarrow> jsstring \<Rightarrow> chat_state \<Rightarrow> chat_state" where
  "send_start clk query s =
     (let s1 = s\<lparr>messages := addMessage (user_fields query) (user_id_now clk) (user_ts_now clk)
                                 (messages s)\<rparr>;
          s2 = s1\<lparr>isLoading := True\<rparr>
      in s2\<lparr>error := None\<rparr>)"

definition send_settle :: "clock \<Rightarrow> chat_data settled \<Rightarrow> chat_state \<Rightarrow> chat_state" where
  "send_settle clk outcome s =
     (let s1 = (case outcome of
                  Fulfilled d \<Rightarrow>
                    s\<lparr>messages := addMessage (reply_fields d) (reply_id_now clk)
                                    (reply_ts_now clk) (messages s)\<rparr>
                | Rejected msg \<Rightarrow>
                    (s\<lparr>error := Some msg\<rparr>)
                      \<lparr>messages := addMessage (failure_fields msg) (reply_id_now clk)
                                    (reply_ts_now clk) (messages s)\<rparr>)
      in s1\<lparr>isLoading := False\<rparr>)"

text \<open>
  The whole call, with a backend that answers the request: the hook's state when the call
  has finished, and the HTTP requests it issued. \<open>isLoading s\<close> is the value the callback
  closes over.
\<close>

definition send ::
  "(http_request \<Rightarrow> chat_data transport_result) \<Rightarrow> clock \<Rightarrow> jsstring \<Rightarrow> chat_state
     \<Rightarrow> chat_state \<times> http_request list" where
  "send backend clk query s =
     (if trim query = [] \<or> isLoading s then (s, [])
      else (send_settle clk (sendMessage backend query) (send_start clk query s),
            [sendMessage_request query]))"

definition clearMessages :: "chat_state \<Rightarrow> chat_state" where
  "clearMessages s = s\<lparr>messages := [], error := None\<rparr>"

text \<open>The state of \<^verbatim>\<open>useChat\<close> at mount.\<close>

definition chat_init :: chat_state where
  "chat_init = \<lparr>messages = [], isLoading = False, error = None\<rparr>"


section \<open>The input bar and the chat page\<close>

text \<open>
  \<^verbatim>\<open>InputBar.handleSend\<close>: the text-area value after the call and the argument of
  \<^verbatim>\<open>onSend\<close>, if it was called.
\<close>

definition handleSend :: "jsstring \<Rightarrow> bool \<Rightarrow> jsstring \<times> jsstring option" where
  "handleSend v disabled =
     (if trim v \<noteq> [] \<and> \<not> disabled then ([], Some (trim v)) else (v, None))"

text \<open>\<^verbatim>\<open>ChatPage\<close> wires \<^verbatim>\<open>onSend={send}\<close> and \<^verbatim>\<open>disabled={isLoading}\<close>.\<close>

definition ChatPage_submit ::
  "(http_request \<Rightarrow> chat_data transport_result) \<Rightarrow> clock \<Rightarrow> jsstring \<Rightarrow> chat_state
     \<Rightarrow> chat_state \<times> http_request list" where
  "ChatPage_submit backend clk v s =
     (case snd (handleSend v (isLoading s)) of
        None \<Rightarrow> (s, [])
      | Some q \<Rightarrow> send backend clk q s)"

section \<open>The message bubble (components/chat/MessageBubble)\<close>

text \<open>One badge of the agent trail: the \<^verbatim>\<open>span\<close> with \<^verbatim>\<open>key={i}\<close> showing \<^verbatim>\<open>{agent}\<close>.\<close>

record badge =
  badge_key :: nat
  badge_text :: jsstring

text \<open>The sources toggle: \<^verbatim>\<open>{n} source{n > 1 ? 's' : ''}\<close> with the chevron up when open.\<close>

record toggle_view =
  source_count :: nat
  plural :: bool
  chevron_up :: bool

text \<open>
  One entry of the sources list: \<^verbatim>\<open>[{i + 1}] {source.document || source.title || 'Source'}\<close>
  and the chunk excerpt when \<^verbatim>\<open>source.chunk\<close> is truthy.
\<close>

record source_entry =
  entry_number :: nat
  heading :: jsstring
  excerpt :: "jsstring option"

text \<open>What a bubble shows; a block that is not rendered is \<open>None\<close>.\<close>

record bubble_view =
  bubble_text :: "jsstring option"
  trail_block :: "badge list option"
  sources_toggle :: "toggle_view option"
  sources_list :: "source_entry list option"

definition isUser :: "'a message_fields_scheme \<Rightarrow> bool" where
  "isUser m = (role m = User)"

definition render_trail :: "'a message_fields_scheme \<Rightarrow> badge list option" where
  "render_trail m =
     (if isUser m then None
      else case agent_trail m of
             None \<Rightarrow> None
           | Some tr \<Rightarrow>
               if length tr > 0
               then Some (map (\<lambda>(i, a). \<lparr>badge_key = i, badge_text = a\<rparr>) (List.enumerate 0 tr))
               else None)"

definition render_toggle :: "'a message_fields_scheme \<Rightarrow> bool \<Rightarrow> toggle_view option" where
  "render_toggle m showSources =
     (if isUser m then None
      else case sources m of
             None \<Rightarrow> None
           | Some srcs \<Rightarrow>
               if length srcs > 0
               then Some \<lparr>source_count = length srcs, plural = (length srcs > 1),
                          chevron_up = showSources\<rparr>
               else None)"

definition render_source :: "nat \<times> source \<Rightarrow> source_entry" where
  "render_source p =
     (case p of (i, src) \<Rightarrow>
        \<lparr>entry_number = i + 1,
         heading = str_or (document src) (str_or (title src) (ascii ''Source'')),
         excerpt = (case chunk src of None \<Rightarrow> None | Some c \<Rightarrow> if c = [] then None else Some c)\<rparr>)"

definition render_sources_list :: "'a message_fields_scheme \<Rightarrow> bool \<Rightarrow> source_entry list option" where
  "render_sources_list m showSources =
     (if isUser m then None
      else if showSources
           then (case sources m of
                   None \<Rightarrow> None
                 | Some srcs \<Rightarrow> Some (map render_source (List.enumerate 0 srcs)))
           else None)"

definition MessageBubble :: "'a message_fields_scheme \<Rightarrow> bool \<Rightarrow> bubble_view" where
  "MessageBubble m showSources =
     \<lparr>bubble_text = content m,
      trail_block = render_trail m,
      sources_toggle = render_toggle m showSources,
      sources_list = render_sources_list m showSources\<rparr>"

text \<open>
  \<open>showSources\<close> starts as \<open>false\<close>; only the toggle's \<^verbatim>\<open>onClick\<close> changes it, to its
  negation, and there is a toggle to click only when it is rendered.
\<close>

definition click_toggle :: "'a message_fields_scheme \<Rightarrow> bool \<Rightarrow> bool" where
  "click_toggle m showSources =
     (case render_toggle m showSources of None \<Rightarrow> showSources | Some t \<Rightarrow> \<not> showSources)"

definition showSources_after :: "'a message_fields_scheme \<Rightarrow> nat \<Rightarrow> bool" where
  "showSources_after m n = (click_toggle m ^^ n) False"


section \<open>The in-flight status indicator (components/chat/AgentStatus.jsx)\<close>

record agent_step =
  emoji :: jsstring
  label :: jsstring
  agent :: jsstring

definition AGENT_STEPS :: "agent_step list" where
  "AGENT_STEPS =
     [\<lparr>emoji = [55357, 56589], label = ascii ''Router analyzing query...'',
       agent = ascii ''router''\<rparr>,
      \<lparr>emoji = [55357, 56538], label = ascii ''Researcher retrieving documents...'',
       agent = ascii ''researcher''\<rparr>,
      \<lparr>emoji = [55357, 56599], label = ascii ''KG Builder extracting entities...'',
       agent = ascii ''kg_builder''\<rparr>,
      \<lparr>emoji = [55358, 56800], label = ascii ''Analyst reasoning over context...'',
       agent = ascii ''analyst''\<rparr>]"

text \<open>The interval callback \<^verbatim>\<open>setStepIndex((i) => (i + 1) % AGENT_STEPS.length)\<close>.\<close>

definition next_step :: "nat \<Rightarrow> nat" where
  "next_step i = (i + 1) mod length AGENT_STEPS"

definition INTERVAL_MS :: nat where
  "INTERVAL_MS = 1800"

text \<open>\<open>stepIndex\<close> starts at 0 at mount; \<open>n\<close> is the number of interval callbacks run since.\<close>

definition stepIndex_after :: "nat \<Rightarrow> nat" where
  "stepIndex_after n = (next_step ^^ n) 0"

text \<open>A timer that fires exactly every \<open>INTERVAL_MS\<close> has run this many callbacks.\<close>

definition callbacks_by :: "nat \<Rightarrow> nat" where
  "callbacks_by elapsed_ms = elapsed_ms div INTERVAL_MS"

record status_view =
  status_text :: jsstring
  progress_dots :: "bool list"

text \<open>
  The component takes no props. Reading \<^verbatim>\<open>AGENT_STEPS[stepIndex]\<close> out of range would throw
  at \<^verbatim>\<open>current.emoji\<close>: \<open>None\<close>.
\<close>

definition AgentStatus :: "nat \<Rightarrow> status_view option" where
  "AgentStatus stepIndex =
     (if stepIndex < length AGENT_STEPS
      then (let current = AGENT_STEPS ! stepIndex
            in Some \<lparr>status_text = emoji current @ ascii '' '' @ label current,
                     progress_dots = map (\<lambda>i. i \<le> stepIndex) [0..<length AGENT_STEPS]\<rparr>)
      else None)"

text \<open>
  \<^verbatim>\<open>ChatWindow\<close> renders \<^verbatim>\<open>{isLoading && <AgentStatus />}\<close>: the indicator shown
  \<open>elapsed_ms\<close> after it was mounted, \<open>None\<close> when there is none.
\<close>

definition ChatWindow_status :: "message list \<Rightarrow> bool \<Rightarrow> nat \<Rightarrow> status_view option" where
  "ChatWindow_status msgs loading elapsed_ms =
     (if loading then AgentStatus (stepIndex_after (callbacks_by elapsed_ms)) else None)"


section \<open>The graph hook and its controls (hooks/useGraph, GraphControls)\<close>

text \<open>
  A fetched node. \<open>node_type\<close> is the key \<^verbatim>\<open>activeFilters[n.type]\<close> reads: the type name, or
  "undefined" for a node that has none.
\<close>

record graph_node =
  node_id :: jsstring
  node_name :: jsstring
  node_type :: jsstring

text \<open>\<open>activeFilters\<close> is an object from type names to booleans.\<close>

type_synonym filters = "jsstring \<rightharpoonup> bool"

definition initial_filters :: filters where
  "initial_filters =
     [ascii ''Person'' \<mapsto> True, ascii ''Organization'' \<mapsto> True, ascii ''Concept'' \<mapsto> True,
      ascii ''Technology'' \<mapsto> True, ascii ''Event'' \<mapsto> True]"

text \<open>The types \<^verbatim>\<open>GraphControls\<close> offers a checkbox for.\<close>

definition ENTITY_TYPES :: "jsstring list" where
  "ENTITY_TYPES =
     [ascii ''Person'', ascii ''Organization'', ascii ''Concept'', ascii ''Technology'',
      ascii ''Event'']"

text \<open>
  \<^verbatim>\<open>{ ...prev, [type]: !prev[type] }\<close>; a missing key reads as undefined, whose negation
  is \<open>true\<close>.
\<close>

definition toggleFilter :: "jsstring \<Rightarrow> filters \<Rightarrow> filters" where
  "toggleFilter t prev = prev(t \<mapsto> \<not> (case prev t of None \<Rightarrow> False | Some b \<Rightarrow> b))"

text \<open>\<^verbatim>\<open>nodes.filter((n) => activeFilters[n.type] !== false)\<close>.\<close>

definition filteredNodes :: "filters \<Rightarrow> 'a graph_node_scheme list \<Rightarrow> 'a graph_node_scheme list" where
  "filteredNodes activeFilters nodes =
     filter (\<lambda>n. activeFilters (node_type n) \<noteq> Some False) nodes"

text \<open>The filter state after the user has clicked the checkboxes \<open>ts\<close>, in this order.\<close>

definition filters_after :: "jsstring list \<Rightarrow> filters" where
  "filters_after ts = foldl (\<lambda>f t. toggleFilter t f) initial_filters ts"


section \<open>The documents page (pages/DocumentsPage.jsx)\<close>

text \<open>
  A document of the list; \<open>document_id\<close> is its property \<^verbatim>\<open>id\<close>, undefined when the entry
  has none.
\<close>

record doc =
  document_id :: "jsstring option"
  filename :: "jsstring option"

record documents_state =
  documents :: "doc list"
  loading :: bool
  docs_error :: "jsstring option"

text \<open>\<^verbatim>\<open>api.delete(`/documents/${docId}`)\<close>; an undefined \<open>docId\<close> is spliced in as "undefined".\<close>

definition deleteDocument_request :: "jsstring option \<Rightarrow> http_request" where
  "deleteDocument_request docId =
     \<lparr>http_method = ascii ''DELETE'',
      url = ascii ''/documents/'' @ (case docId of None \<Rightarrow> ascii ''undefined'' | Some d \<Rightarrow> d),
      body = []\<rparr>"

definition deleteDocument ::
  "(http_request \<Rightarrow> 'r transport_result) \<Rightarrow> jsstring option \<Rightarrow> 'r settled" where
  "deleteDocument backend docId =
     (case backend (deleteDocument_request docId) of
        Response d \<Rightarrow> Fulfilled d
      | Failure e \<Rightarrow> Rejected (interceptor_message e))"

definition handleDelete ::
  "(http_request \<Rightarrow> 'r transport_result) \<Rightarrow> jsstring option \<Rightarrow> documents_state \<Rightarrow> documents_state" where
  "handleDelete backend docId s =
     (case deleteDocument backend docId of
        Fulfilled r \<Rightarrow> s\<lparr>documents := filter (\<lambda>d. document_id d \<noteq> docId) (documents s)\<rparr>
      | Rejected msg \<Rightarrow> s\<lparr>docs_error := Some msg\<rparr>)"


section \<open>Binary floating point\<close>

text \<open>
  Modelled from the spec: section 4.2 prescribes finite floating-point scores. A score is
  an IEEE 754 binary64 number, kept as the rational it denotes; every operation is the
  exact one followed by rounding to the nearest binary64 number, ties to the even
  significand. \<open>flog2 x\<close> is the binary exponent of a positive \<open>x\<close>: the \<open>e\<close> with
  \<open>2^e \<le> x < 2^(e+1)\<close>.
\<close>

definition flog2 :: "rat \<Rightarrow> int" where
  "flog2 x = (if 1 \<le> x then bitlen \<lfloor>x\<rfloor> - 1 else - bitlen (\<lceil>1 / x\<rceil> - 1))"

text \<open>
  Modelled from the spec: the spacing of the binary64 numbers around a positive \<open>a\<close>: 53
  significant bits, and the exponent of the subnormal numbers below \<open>2^-1022\<close>.
\<close>

definition quantum :: "rat \<Rightarrow> rat" where
  "quantum a = 2 powi (max (flog2 a) (- 1022) - 52)"

text \<open>Modelled from the spec: rounding to the nearest integer, a tie to the even one.\<close>

definition round_even :: "rat \<Rightarrow> int" where
  "round_even x =
     (let f = \<lfloor>x\<rfloor>; r = x - of_int f
      in if r < 1 / 2 then f else if 1 / 2 < r then f + 1 else if even f then f else f + 1)"

text \<open>
  Modelled from the spec: the binary64 number nearest to \<open>x\<close>. Scores are at most 1 and
  ranks are far below \<open>2^1024\<close>, so overflow has no case.
\<close>

definition binary64 :: "rat \<Rightarrow> rat" where
  "binary64 x =
     (if x = 0 then 0
      else sgn x * (of_int (round_even (\<bar>x\<bar> / quantum \<bar>x\<bar>)) * quantum \<bar>x\<bar>))"


section \<open>Reciprocal Rank Fusion\<close>

text \<open>
  Modelled from the spec: the Fusion Ranker of the hybrid retriever. Its code is in the
  backend, which is not among the sources; only the architecture notes mention it. The
  definitions follow section 4.2 of the specification, step 3, with binary64 scores.
  First the constant \<open>k\<close>.
\<close>

definition rrf_k :: rat where
  "rrf_k = 60"

text \<open>Modelled from the spec: the weight of the dense list, the binary64 number written 0.6.\<close>

definition w_dense :: rat where
  "w_dense = binary64 (6 / 10)"

text \<open>Modelled from the spec: the weight of the sparse list, the binary64 number written 0.4.\<close>

definition w_sparse :: rat where
  "w_sparse = binary64 (4 / 10)"

text \<open>Modelled from the spec: the 1-based rank of a chunk in a ranked list, \<open>None\<close> when not ranked.\<close>

fun rank_in :: "'a list \<Rightarrow> 'a \<Rightarrow> nat option" where
  "rank_in [] d = None"
| "rank_in (x # xs) d = (if x = d then Some 1 else map_option Suc (rank_in xs d))"

text \<open>
  Modelled from the spec: one list's term of the score, \<open>w / (k + rank)\<close> in binary64: the
  sum \<open>k + rank\<close> converted, then the division rounded. A chunk absent from the list
  contributes 0.
\<close>

definition rrf_term :: "rat \<Rightarrow> nat option \<Rightarrow> rat" where
  "rrf_term w r =
     (case r of None \<Rightarrow> 0 | Some n \<Rightarrow> binary64 (w / binary64 (rrf_k + of_nat n)))"

text \<open>
  Modelled from the spec: the fields of a RetrievalCandidate that fusion fills in; a rank
  is 1-based and \<open>None\<close> when the chunk is not ranked.
\<close>

record 'a candidate =
  chunk_id :: 'a
  dense_rank :: "nat option"
  sparse_rank :: "nat option"
  fused_score :: rat

text \<open>
  Modelled from the spec: the candidate of chunk \<open>d\<close>, with its ranks and its fused score,
  the binary64 sum of the dense and the sparse term.
\<close>

definition rrf_candidate :: "'a list \<Rightarrow> 'a list \<Rightarrow> 'a \<Rightarrow> 'a candidate" where
  "rrf_candidate dense sparse d =
     \<lparr>chunk_id = d, dense_rank = rank_in dense d, sparse_rank = rank_in sparse d,
      fused_score =
        binary64 (rrf_term w_dense (rank_in dense d) + rrf_term w_sparse (rank_in sparse d))\<rparr>"

text \<open>
  Modelled from the spec: the sort key. Descending score, then ascending dense rank (not
  ranked counts as infinite), then ascending chunk id.
\<close>

definition fusion_key :: "('a::linorder) candidate \<Rightarrow> rat \<times> enat \<times> 'a" where
  "fusion_key c =
     (- fused_score c, (case dense_rank c of None \<Rightarrow> \<infinity> | Some r \<Rightarrow> enat r), chunk_id c)"

text \<open>Modelled from the spec: every chunk of either list, sorted, cut to the top \<open>F\<close>.\<close>

definition rrf_fuse :: "('a::linorder) list \<Rightarrow> 'a list \<Rightarrow> nat \<Rightarrow> 'a candidate list" where
  "rrf_fuse dense sparse F =
     take F (sort_key fusion_key (map (rrf_candidate dense sparse) (remdups (dense @ sparse))))"

text \<open>
  Modelled from the spec: the order of the fused list in the specification's words, \<open>a\<close>
  may stand before \<open>b\<close>: a higher score first; on equal scores the lower dense rank, a
  ranked chunk before an unranked one; then the smaller chunk id.
\<close>

definition fused_before :: "('a::linorder) candidate \<Rightarrow> 'a candidate \<Rightarrow> bool" where
  "fused_before a b =
     (fused_score a > fused_score b
      \<or> (fused_score a = fused_score b
          \<and> (case (dense_rank a, dense_rank b) of
                (Some i, Some j) \<Rightarrow> i < j \<or> (i = j \<and> chunk_id a \<le> chunk_id b)
              | (Some i, None) \<Rightarrow> True
              | (None, Some j) \<Rightarrow> False
              | (None, None) \<Rightarrow> chunk_id a \<le> chunk_id b)))"


section \<open>Properties of trimming and of the guard of send\<close>

lemma dropWhile_trim: "dropWhile is_white_space (trim s) = trim s"
proof (cases "trim s = []")
  case True then show ?thesis by simp
next
  case False
  let ?t = "dropWhile is_white_space s"
  have ne: "?t \<noteq> []"
  proof
    assume e: "?t = []"
    have "trim s = []" unfolding trim_def e by simp
    with False show False by simp
  qed
  have "\<exists>zs. ?t = trim s @ zs"
    unfolding trim_def
    by (metis append_take_drop_id rev_append rev_rev_ident takeWhile_dropWhile_id)
  then obtain zs where z: "?t = trim s @ zs" by blast
  with False have "hd (trim s) = hd ?t" by (metis hd_append2)
  moreover have "\<not> is_white_space (hd ?t)" using ne by (rule hd_dropWhile)
  ultimately show ?thesis using False by (simp add: dropWhile_eq_self_iff)
qed

lemma dropWhile_rev_trim: "dropWhile is_white_space (rev (trim s)) = rev (trim s)"
  unfolding trim_def by simp

lemma trim_idem: "trim (trim s) = trim s"
proof -
  have "trim (trim s) = rev (dropWhile is_white_space (rev (dropWhile is_white_space (trim s))))"
    by (simp add: trim_def)
  also have "\<dots> = rev (dropWhile is_white_space (rev (trim s)))" by (simp add: dropWhile_trim)
  also have "\<dots> = trim s" by (simp add: dropWhile_rev_trim)
  finally show ?thesis .
qed

text \<open>
  Claim C7. When the query is empty or only white space, or when a request is still in
  flight (\<open>isLoading\<close>), \<open>send\<close> returns with the state as it was and issues no HTTP
  request. Every request that \<open>send\<close> issues is the one for its own query, and that query
  is non-empty after trimming; the input bar hands over the trimmed text only when it is
  non-empty and the bar is not disabled, so the same holds for every request that a
  submission from the chat page issues.
\<close>

theorem send_guarded:
  "(trim query = [] \<or> isLoading s \<longrightarrow> send backend clk query s = (s, []))
   \<and> (\<forall>r \<in> set (snd (send backend clk query s)). r = sendMessage_request query \<and> trim query \<noteq> [])
   \<and> snd (ChatPage_submit backend clk v s) =
       (if trim v \<noteq> [] \<and> \<not> isLoading s then [sendMessage_request (trim v)] else [])
   \<and> (\<forall>r \<in> set (snd (ChatPage_submit backend clk v s)).
         \<exists>q. r = sendMessage_request q \<and> trim q \<noteq> [])"
  by (auto simp: send_def ChatPage_submit_def handleSend_def trim_idem)

theorem send_guarded_witness:
  "trim [32, 9] = []
   \<and> send (\<lambda>r. Failure \<lparr>response_detail = None, error_message = None\<rparr>)
        \<lparr>user_id_now = 1, user_ts_now = 1, reply_id_now = 2, reply_ts_now = 2\<rparr> [32, 9] chat_init
      = (chat_init, [])
   \<and> sendMessage_request (ascii ''hi'')
      \<in> set (snd (ChatPage_submit (\<lambda>r. Failure \<lparr>response_detail = None, error_message = None\<rparr>)
        \<lparr>user_id_now = 1, user_ts_now = 1, reply_id_now = 2, reply_ts_now = 2\<rparr>
        (ascii '' hi '') chat_init))
   \<and> trim (ascii ''hi'') \<noteq> []"
  using send_guarded [of "[32, 9]" chat_init
      "\<lambda>r. Failure \<lparr>response_detail = None, error_message = None\<rparr>"
      "\<lparr>user_id_now = 1, user_ts_now = 1, reply_id_now = 2, reply_ts_now = 2\<rparr>" "ascii '' hi ''"]
  by (simp add: trim_def is_white_space_def ascii_def chat_init_def)


section \<open>A failed request\<close>

lemma interceptor_message_nonempty: "interceptor_message e \<noteq> []"
  by (cases "response_detail e"; cases "error_message e")
     (auto simp: interceptor_message_def ascii_def)

lemma send_accepted:
  "trim query \<noteq> [] \<Longrightarrow> \<not> isLoading s \<Longrightarrow>
   send backend clk query s =
     (send_settle clk (sendMessage backend query) (send_start clk query s), [sendMessage_request query])"
  by (simp add: send_def)

text \<open>
  Claim C2. When the request of an accepted \<open>send\<close> fails, the hook appends the user's
  message and exactly one assistant message, whose content is the failure message after
  the prefix \<open>error_prefix\<close> and whose sources, agent trail and entities are empty; the
  error state is the failure message and \<open>isLoading\<close> is false again. The failure message
  is never empty and the error state is set, whereas every successful reply to the same
  call leaves the error state empty.
\<close>

theorem send_failure_surfaced:
  assumes "trim query \<noteq> []" and "\<not> isLoading s"
    and "backend (sendMessage_request query) = Failure e"
  shows "fst (send backend clk query s) =
           \<lparr>messages = messages s @
              [\<lparr>role = User, content = Some query, sources = None, agent_trail = None,
                entities = None, msg_id = decimal (user_id_now clk), timestamp = user_ts_now clk\<rparr>,
               \<lparr>role = Assistant, content = Some (error_prefix @ interceptor_message e),
                sources = Some [], agent_trail = Some [], entities = Some [],
                msg_id = decimal (reply_id_now clk), timestamp = reply_ts_now clk\<rparr>],
            isLoading = False,
            error = Some (interceptor_message e)\<rparr>
         \<and> length (filter (\<lambda>m. role m = Assistant) (messages (fst (send backend clk query s))))
             = Suc (length (filter (\<lambda>m. role m = Assistant) (messages s)))
         \<and> interceptor_message e \<noteq> []
         \<and> (\<forall>backend' d. backend' (sendMessage_request query) = Response d
               \<longrightarrow> error (fst (send backend' clk query s)) = None)"
  using assms
  by (simp add: send_accepted send_settle_def send_start_def sendMessage_def addMessage_def
      user_fields_def failure_fields_def interceptor_message_nonempty Let_def)

theorem send_failure_surfaced_witness:
  "fst (send (\<lambda>r. Failure \<lparr>response_detail = Some (ascii ''LLM timeout''), error_message = None\<rparr>)
        \<lparr>user_id_now = 5, user_ts_now = 5, reply_id_now = 7, reply_ts_now = 7\<rparr>
        (ascii ''hi'') chat_init) =
     \<lparr>messages =
        [\<lparr>role = User, content = Some (ascii ''hi''), sources = None, agent_trail = None,
          entities = None, msg_id = [53], timestamp = 5\<rparr>,
         \<lparr>role = Assistant, content = Some ([9888, 65039] @ ascii '' Error: LLM timeout''),
          sources = Some [], agent_trail = Some [], entities = Some [],
          msg_id = [55], timestamp = 7\<rparr>],
      isLoading = False,
      error = Some (ascii ''LLM timeout'')\<rparr>"
  using send_failure_surfaced [of "ascii ''hi''" chat_init
      "\<lambda>r. Failure \<lparr>response_detail = Some (ascii ''LLM timeout''), error_message = None\<rparr>"
      "\<lparr>response_detail = Some (ascii ''LLM timeout''), error_message = None\<rparr>"
      "\<lparr>user_id_now = 5, user_ts_now = 5, reply_id_now = 7, reply_ts_now = 7\<rparr>"]
  by (simp add: trim_def is_white_space_def ascii_def chat_init_def interceptor_message_def
      error_prefix_def decimal.simps)


section \<open>A successful reply\<close>

text \<open>
  Claim C1, as amended. When the request of an accepted \<open>send\<close> succeeds with the
  reply \<open>d\<close>, the hook appends the user's message and one assistant message built from
  four fields of the reply: the content is \<open>answer\<close>, the sources are \<open>sources\<close>, the
  agent trail is \<open>steps_taken\<close> and the entities are \<open>entities\<close>, each of the three lists
  empty when the field is absent. No other field of the reply has any influence: two
  replies that agree on these four fields leave the same state.
\<close>

theorem reply_message_fields:
  assumes "trim query \<noteq> []" and "\<not> isLoading s"
    and "backend (sendMessage_request query) = Response d"
  shows "fst (send backend clk query s) =
           \<lparr>messages = messages s @
              [\<lparr>role = User, content = Some query, sources = None, agent_trail = None,
                entities = None, msg_id = decimal (user_id_now clk), timestamp = user_ts_now clk\<rparr>,
               \<lparr>role = Assistant, content = answer d,
                sources = Some (case data_sources d of None \<Rightarrow> [] | Some xs \<Rightarrow> xs),
                agent_trail = Some (case steps_taken d of None \<Rightarrow> [] | Some xs \<Rightarrow> xs),
                entities = Some (case data_entities d of None \<Rightarrow> [] | Some xs \<Rightarrow> xs),
                msg_id = decimal (reply_id_now clk), timestamp = reply_ts_now clk\<rparr>],
            isLoading = False,
            error = None\<rparr>
         \<and> (\<forall>backend' d'. backend' (sendMessage_request query) = Response d'
               \<and> answer d' = answer d \<and> data_sources d' = data_sources d
               \<and> steps_taken d' = steps_taken d \<and> data_entities d' = data_entities d
               \<longrightarrow> fst (send backend' clk query s) = fst (send backend clk query s))"
  using assms
  by (cases "data_sources d"; cases "steps_taken d"; cases "data_entities d")
     (simp_all add: send_accepted send_settle_def send_start_def sendMessage_def addMessage_def
      user_fields_def reply_fields_def Let_def)

theorem reply_message_fields_witness:
  "messages (fst (send
        (\<lambda>r. Response \<lparr>answer = Some (ascii ''LangGraph is a library''), session_id = Some (ascii ''default''),
                        data_sources = None, steps_taken = Some [ascii ''router:researcher'', ascii ''researcher''],
                        data_entities = None\<rparr>)
        \<lparr>user_id_now = 5, user_ts_now = 5, reply_id_now = 7, reply_ts_now = 8\<rparr>
        (ascii ''What is LangGraph?'') chat_init)) =
     [\<lparr>role = User, content = Some (ascii ''What is LangGraph?''), sources = None, agent_trail = None,
          entities = None, msg_id = [53], timestamp = 5\<rparr>,
      \<lparr>role = Assistant, content = Some (ascii ''LangGraph is a library''),
          sources = Some [], agent_trail = Some [ascii ''router:researcher'', ascii ''researcher''],
          entities = Some [], msg_id = [55], timestamp = 8\<rparr>]"
  using reply_message_fields [of "ascii ''What is LangGraph?''" chat_init
      "\<lambda>r. Response \<lparr>answer = Some (ascii ''LangGraph is a library''), session_id = Some (ascii ''default''),
                        data_sources = None, steps_taken = Some [ascii ''router:researcher'', ascii ''researcher''],
                        data_entities = None\<rparr>"
      "\<lparr>answer = Some (ascii ''LangGraph is a library''), session_id = Some (ascii ''default''),
                        data_sources = None, steps_taken = Some [ascii ''router:researcher'', ascii ''researcher''],
                        data_entities = None\<rparr>"
      "\<lparr>user_id_now = 5, user_ts_now = 5, reply_id_now = 7, reply_ts_now = 8\<rparr>"]
  by (simp add: trim_def is_white_space_def ascii_def chat_init_def decimal.simps)

text \<open>
  Three fields are not enough: two replies with the same answer, sources and steps, one
  without entities and one with an entity, give different assistant messages.
\<close>

theorem reply_three_fields_counterexample:
  "answer \<lparr>answer = Some (ascii ''ok''), session_id = None, data_sources = None,
           steps_taken = None, data_entities = None\<rparr>
     = answer \<lparr>answer = Some (ascii ''ok''), session_id = None, data_sources = None,
           steps_taken = None,
           data_entities = Some [\<lparr>entity_name = ascii ''LangGraph'',
                                  entity_type = ascii ''TECHNOLOGY'', description = []\<rparr>]\<rparr>
   \<and> entities (reply_fields \<lparr>answer = Some (ascii ''ok''), session_id = None, data_sources = None,
           steps_taken = None, data_entities = None\<rparr>) = Some []
   \<and> entities (reply_fields \<lparr>answer = Some (ascii ''ok''), session_id = None, data_sources = None,
           steps_taken = None,
           data_entities = Some [\<lparr>entity_name = ascii ''LangGraph'',
                                  entity_type = ascii ''TECHNOLOGY'', description = []\<rparr>]\<rparr>)
       = Some [\<lparr>entity_name = ascii ''LangGraph'', entity_type = ascii ''TECHNOLOGY'',
                description = []\<rparr>]
   \<and> send_settle \<lparr>user_id_now = 5, user_ts_now = 5, reply_id_now = 7, reply_ts_now = 8\<rparr>
        (Fulfilled \<lparr>answer = Some (ascii ''ok''), session_id = None, data_sources = None,
           steps_taken = None, data_entities = None\<rparr>) chat_init
     \<noteq> send_settle \<lparr>user_id_now = 5, user_ts_now = 5, reply_id_now = 7, reply_ts_now = 8\<rparr>
        (Fulfilled \<lparr>answer = Some (ascii ''ok''), session_id = None, data_sources = None,
           steps_taken = None,
           data_entities = Some [\<lparr>entity_name = ascii ''LangGraph'',
                                  entity_type = ascii ''TECHNOLOGY'', description = []\<rparr>]\<rparr>) chat_init"
  by (simp add: reply_fields_def send_settle_def addMessage_def chat_init_def)


section \<open>The request body\<close>

text \<open>
  Claim C3, as amended. \<open>send\<close> issues at most one request, the one for its query, and
  the body of that request carries the query text alone: it has the single field, and
  neither a \<open>session_id\<close> nor a \<open>history\<close> field.
\<close>

theorem request_body_query_only:
  "snd (send backend clk query s) =
     (if trim query = [] \<or> isLoading s then [] else [sendMessage_request query])
   \<and> body (sendMessage_request query) = [(ascii ''query'', JStr query)]
   \<and> map_of (body (sendMessage_request query)) (ascii ''session_id'') = None
   \<and> map_of (body (sendMessage_request query)) (ascii ''history'') = None"
  by (simp add: send_def sendMessage_request_def ascii_def)

theorem request_body_query_only_witness:
  "snd (send (\<lambda>r. Failure \<lparr>response_detail = None, error_message = None\<rparr>)
        \<lparr>user_id_now = 5, user_ts_now = 5, reply_id_now = 7, reply_ts_now = 8\<rparr>
        (ascii ''What is LangGraph?'') chat_init)
     = [\<lparr>http_method = ascii ''POST'', url = ascii ''/chat'',
         body = [(ascii ''query'', JStr (ascii ''What is LangGraph?''))]\<rparr>]"
  using request_body_query_only [of "\<lambda>r. Failure \<lparr>response_detail = None, error_message = None\<rparr>"
        "\<lparr>user_id_now = 5, user_ts_now = 5, reply_id_now = 7, reply_ts_now = 8\<rparr>"
        "ascii ''What is LangGraph?''" chat_init]
  by (simp add: trim_def is_white_space_def ascii_def chat_init_def sendMessage_request_def)

text \<open>
  The request for the query "What is LangGraph?" has no session id and no history.
\<close>

theorem request_session_history_counterexample:
  "map_of (body (sendMessage_request (ascii ''What is LangGraph?''))) (ascii ''session_id'') = None
   \<and> map_of (body (sendMessage_request (ascii ''What is LangGraph?''))) (ascii ''history'') = None"
  by (simp add: ascii_def sendMessage_request_def)


section \<open>What a message bubble shows\<close>

lemma badge_texts:
  "map (badge_text \<circ> (\<lambda>(i, a). \<lparr>badge_key = i, badge_text = a\<rparr>)) (List.enumerate n tr) = tr"
  by (induction tr arbitrary: n) simp_all

text \<open>
  Claim C4. For the assistant message that an accepted \<open>send\<close> appends, the badges of
  the agent trail show exactly the elements of the reply's \<open>steps_taken\<close>, in their order,
  and the trail block is rendered if and only if \<open>steps_taken\<close> is present and non-empty.
  The message of a failed request has no trail block.
\<close>

theorem trail_is_steps_taken:
  assumes "trim query \<noteq> []" and "\<not> isLoading s"
  shows "map_option (map badge_text)
           (trail_block (MessageBubble (last (messages (fst (send backend clk query s)))) showSources))
         = (case backend (sendMessage_request query) of
              Response d \<Rightarrow>
                (case steps_taken d of
                   None \<Rightarrow> None
                 | Some steps \<Rightarrow> if steps = [] then None else Some steps)
            | Failure e \<Rightarrow> None)"
proof (cases "backend (sendMessage_request query)")
  case (Response d)
  with assms show ?thesis
    by (cases "steps_taken d")
       (simp_all add: send_def send_settle_def send_start_def sendMessage_def addMessage_def
        reply_fields_def MessageBubble_def render_trail_def isUser_def badge_texts Let_def)
next
  case (Failure e)
  with assms show ?thesis
    by (simp add: send_def send_settle_def send_start_def sendMessage_def addMessage_def
        failure_fields_def MessageBubble_def render_trail_def isUser_def Let_def)
qed

theorem trail_is_steps_taken_witness:
  "trail_block (MessageBubble (last (messages (fst (send
        (\<lambda>r. Response \<lparr>answer = Some (ascii ''ok''), session_id = None, data_sources = None,
                        steps_taken = Some [ascii ''router:researcher'', ascii ''researcher'',
                                            ascii ''synthesiser''],
                        data_entities = None\<rparr>)
        \<lparr>user_id_now = 5, user_ts_now = 5, reply_id_now = 7, reply_ts_now = 8\<rparr>
        (ascii ''hi'') chat_init)))) False)
   = Some [\<lparr>badge_key = 0, badge_text = ascii ''router:researcher''\<rparr>,
           \<lparr>badge_key = 1, badge_text = ascii ''researcher''\<rparr>,
           \<lparr>badge_key = 2, badge_text = ascii ''synthesiser''\<rparr>]"
  using trail_is_steps_taken [of "ascii ''hi''" chat_init
        "\<lambda>r. Response \<lparr>answer = Some (ascii ''ok''), session_id = None, data_sources = None,
                        steps_taken = Some [ascii ''router:researcher'', ascii ''researcher'',
                                            ascii ''synthesiser''],
                        data_entities = None\<rparr>"
        "\<lparr>user_id_now = 5, user_ts_now = 5, reply_id_now = 7, reply_ts_now = 8\<rparr>" False]
  by (simp add: trim_def is_white_space_def ascii_def chat_init_def send_def send_settle_def
      send_start_def sendMessage_def addMessage_def reply_fields_def MessageBubble_def
      render_trail_def isUser_def Let_def)

lemma showSources_after_eq:
  "role m \<noteq> User \<Longrightarrow>
   showSources_after m n = ((case sources m of None \<Rightarrow> [] | Some xs \<Rightarrow> xs) \<noteq> [] \<and> odd n)"
  by (induction n)
     (auto simp: showSources_after_def click_toggle_def render_toggle_def isUser_def
           split: option.splits)

lemma entry_numbers:
  "map (entry_number \<circ> render_source) (List.enumerate n srcs) = [Suc n..<Suc n + length srcs]"
  by (induction srcs arbitrary: n) (simp_all add: render_source_def upt_rec)

text \<open>
  Claim C6, as amended. For an assistant message, after any number \<open>n\<close> of clicks on the
  toggle: the source-count toggle is shown if and only if the sources are non-empty; the
  sources list is shown if and only if the sources are non-empty and the toggle has been
  clicked an odd number of times, so it is hidden at first and never shown for a message
  without sources. Its entries are numbered from 1.
\<close>

theorem sources_shown:
  assumes "role m = Assistant"
  shows "(sources_toggle (MessageBubble m (showSources_after m n)) \<noteq> None)
           = (or_empty (sources m) \<noteq> [])
       \<and> (sources_list (MessageBubble m (showSources_after m n)) \<noteq> None)
           = (or_empty (sources m) \<noteq> [] \<and> odd n)
       \<and> (\<forall>es. sources_list (MessageBubble m (showSources_after m n)) = Some es
             \<longrightarrow> map entry_number es = [1..<Suc (length (or_empty (sources m)))])"
  using assms
  by (cases "sources m")
     (auto simp: MessageBubble_def render_toggle_def render_sources_list_def isUser_def
        showSources_after_eq entry_numbers Suc_le_eq)

theorem sources_shown_witness:
  "sources_toggle (MessageBubble
       \<lparr>role = Assistant, content = Some (ascii ''ok''),
        sources = Some [\<lparr>document = Some (ascii ''a.pdf''), title = None, chunk = None\<rparr>,
                        \<lparr>document = None, title = None, chunk = Some (ascii ''text'')\<rparr>],
        agent_trail = Some [], entities = Some []\<rparr>
       (showSources_after
         \<lparr>role = Assistant, content = Some (ascii ''ok''),
          sources = Some [\<lparr>document = Some (ascii ''a.pdf''), title = None, chunk = None\<rparr>,
                          \<lparr>document = None, title = None, chunk = Some (ascii ''text'')\<rparr>],
          agent_trail = Some [], entities = Some []\<rparr> 1))
     = Some \<lparr>source_count = 2, plural = True, chevron_up = True\<rparr>
   \<and> sources_list (MessageBubble
       \<lparr>role = Assistant, content = Some (ascii ''ok''),
        sources = Some [\<lparr>document = Some (ascii ''a.pdf''), title = None, chunk = None\<rparr>,
                        \<lparr>document = None, title = None, chunk = Some (ascii ''text'')\<rparr>],
        agent_trail = Some [], entities = Some []\<rparr>
       (showSources_after
         \<lparr>role = Assistant, content = Some (ascii ''ok''),
          sources = Some [\<lparr>document = Some (ascii ''a.pdf''), title = None, chunk = None\<rparr>,
                          \<lparr>document = None, title = None, chunk = Some (ascii ''text'')\<rparr>],
          agent_trail = Some [], entities = Some []\<rparr> 1))
     = Some [\<lparr>entry_number = 1, heading = ascii ''a.pdf'', excerpt = None\<rparr>,
             \<lparr>entry_number = 2, heading = ascii ''Source'', excerpt = Some (ascii ''text'')\<rparr>]"
  using sources_shown [of
         "\<lparr>role = Assistant, content = Some (ascii ''ok''),
          sources = Some [\<lparr>document = Some (ascii ''a.pdf''), title = None, chunk = None\<rparr>,
                          \<lparr>document = None, title = None, chunk = Some (ascii ''text'')\<rparr>],
          agent_trail = Some [], entities = Some []\<rparr>" 1]
  by (simp add: MessageBubble_def render_toggle_def render_sources_list_def isUser_def
      showSources_after_def click_toggle_def render_source_def ascii_def)

text \<open>
  A message with one source, before any click: the sources are non-empty and the list is
  not shown.
\<close>

theorem sources_list_hidden_counterexample:
  "sources \<lparr>role = Assistant, content = Some (ascii ''ok''),
        sources = Some [\<lparr>document = Some (ascii ''a.pdf''), title = None, chunk = None\<rparr>],
        agent_trail = Some [], entities = Some []\<rparr> \<noteq> Some []
   \<and> sources_list (MessageBubble
       \<lparr>role = Assistant, content = Some (ascii ''ok''),
        sources = Some [\<lparr>document = Some (ascii ''a.pdf''), title = None, chunk = None\<rparr>],
        agent_trail = Some [], entities = Some []\<rparr>
       (showSources_after
         \<lparr>role = Assistant, content = Some (ascii ''ok''),
          sources = Some [\<lparr>document = Some (ascii ''a.pdf''), title = None, chunk = None\<rparr>],
          agent_trail = Some [], entities = Some []\<rparr> 0)) = None"
  by (simp add: MessageBubble_def render_sources_list_def isUser_def showSources_after_def)


section \<open>Deleting a document\<close>

text \<open>
  Claim C10. When the deletion request succeeds, the document list becomes the previous
  list without the entries whose id equals \<open>docId\<close>, the others unchanged and in their
  order, and nothing else of the page state changes. When the request fails, the document
  list is unchanged and only the error state is set, to the failure message.
\<close>

theorem delete_removes_only_docId:
  "(\<forall>r. backend (deleteDocument_request docId) = Response r \<longrightarrow>
       handleDelete backend docId s
         = s\<lparr>documents := filter (\<lambda>d. document_id d \<noteq> docId) (documents s)\<rparr>
       \<and> set (documents (handleDelete backend docId s))
           = {d \<in> set (documents s). document_id d \<noteq> docId}
       \<and> loading (handleDelete backend docId s) = loading s
       \<and> docs_error (handleDelete backend docId s) = docs_error s)
   \<and> (\<forall>e. backend (deleteDocument_request docId) = Failure e \<longrightarrow>
       documents (handleDelete backend docId s) = documents s
       \<and> loading (handleDelete backend docId s) = loading s
       \<and> docs_error (handleDelete backend docId s) = Some (interceptor_message e))"
  by (auto simp: handleDelete_def deleteDocument_def)

theorem delete_removes_only_docId_witness:
  "documents (handleDelete (\<lambda>r. Response ())
       (Some (ascii ''b''))
       \<lparr>documents = [\<lparr>document_id = Some (ascii ''a''), filename = Some (ascii ''a.pdf'')\<rparr>,
                     \<lparr>document_id = Some (ascii ''b''), filename = Some (ascii ''b.pdf'')\<rparr>,
                     \<lparr>document_id = Some (ascii ''c''), filename = None\<rparr>],
        loading = False, docs_error = None\<rparr>)
     = [\<lparr>document_id = Some (ascii ''a''), filename = Some (ascii ''a.pdf'')\<rparr>,
        \<lparr>document_id = Some (ascii ''c''), filename = None\<rparr>]
   \<and> handleDelete (\<lambda>r. Failure \<lparr>response_detail = Some (ascii ''Not found''), error_message = None\<rparr>
                      :: unit transport_result)
       (Some (ascii ''b''))
       \<lparr>documents = [\<lparr>document_id = Some (ascii ''a''), filename = Some (ascii ''a.pdf'')\<rparr>],
        loading = False, docs_error = None\<rparr>
     = \<lparr>documents = [\<lparr>document_id = Some (ascii ''a''), filename = Some (ascii ''a.pdf'')\<rparr>],
        loading = False, docs_error = Some (ascii ''Not found'')\<rparr>"
  using delete_removes_only_docId [of "\<lambda>r. Response ()" "Some (ascii ''b'')"
       "\<lparr>documents = [\<lparr>document_id = Some (ascii ''a''), filename = Some (ascii ''a.pdf'')\<rparr>,
                     \<lparr>document_id = Some (ascii ''b''), filename = Some (ascii ''b.pdf'')\<rparr>,
                     \<lparr>document_id = Some (ascii ''c''), filename = None\<rparr>],
        loading = False, docs_error = None\<rparr>"]
    delete_removes_only_docId [of "\<lambda>r. Failure \<lparr>response_detail = Some (ascii ''Not found''), error_message = None\<rparr>
                      :: unit transport_result" "Some (ascii ''b'')"
       "\<lparr>documents = [\<lparr>document_id = Some (ascii ''a''), filename = Some (ascii ''a.pdf'')\<rparr>],
        loading = False, docs_error = None\<rparr>"]
  by (simp add: ascii_def interceptor_message_def handleDelete_def deleteDocument_def)


section \<open>The status indicator while a request is in flight\<close>

lemma stepIndex_after_mod: "stepIndex_after n = n mod 4"
  by (induction n) (simp_all add: stepIndex_after_def next_step_def AGENT_STEPS_def mod_Suc_eq)

lemma AgentStatus_steps:
  "i < 4 \<Longrightarrow>
   AgentStatus i =
     [Some \<lparr>status_text = [55357, 56589] @ ascii '' Router analyzing query...'',
            progress_dots = [True, False, False, False]\<rparr>,
      Some \<lparr>status_text = [55357, 56538] @ ascii '' Researcher retrieving documents...'',
            progress_dots = [True, True, False, False]\<rparr>,
      Some \<lparr>status_text = [55357, 56599] @ ascii '' KG Builder extracting entities...'',
            progress_dots = [True, True, True, False]\<rparr>,
      Some \<lparr>status_text = [55358, 56800] @ ascii '' Analyst reasoning over context...'',
            progress_dots = [True, True, True, True]\<rparr>] ! i"
proof -
  assume "i < 4"
  then consider "i = 0" | "i = 1" | "i = 2" | "i = 3" by linarith
  then show ?thesis
    by cases (simp_all add: AgentStatus_def AGENT_STEPS_def upt_rec ascii_def)
qed

text \<open>
  Claim C9. While a request is in flight, the indicator shown \<open>t\<close> milliseconds after it
  appeared is the same for any two queries, clocks and earlier states: it is step number
  \<open>(t div 1800) mod 4\<close> of the four steps router, researcher, kg_builder, analyst, each
  with its own text and progress dots, for a timer that fires every 1800 ms. After \<open>n\<close>
  interval callbacks the step index is \<open>n mod 4\<close>. Neither the query nor anything of the
  backend is an argument of the indicator.
\<close>

theorem status_depends_on_time_only:
  "ChatWindow_status (messages (send_start clk1 query1 s1)) (isLoading (send_start clk1 query1 s1)) t
     = ChatWindow_status (messages (send_start clk2 query2 s2)) (isLoading (send_start clk2 query2 s2)) t
   \<and> ChatWindow_status (messages (send_start clk1 query1 s1)) (isLoading (send_start clk1 query1 s1)) t
     = [Some \<lparr>status_text = [55357, 56589] @ ascii '' Router analyzing query...'',
              progress_dots = [True, False, False, False]\<rparr>,
        Some \<lparr>status_text = [55357, 56538] @ ascii '' Researcher retrieving documents...'',
              progress_dots = [True, True, False, False]\<rparr>,
        Some \<lparr>status_text = [55357, 56599] @ ascii '' KG Builder extracting entities...'',
              progress_dots = [True, True, True, False]\<rparr>,
        Some \<lparr>status_text = [55358, 56800] @ ascii '' Analyst reasoning over context...'',
              progress_dots = [True, True, True, True]\<rparr>] ! ((t div 1800) mod 4)
   \<and> stepIndex_after n = n mod 4
   \<and> map agent AGENT_STEPS
     = [ascii ''router'', ascii ''researcher'', ascii ''kg_builder'', ascii ''analyst'']
   \<and> map (\<lambda>st. emoji st @ ascii '' '' @ label st) AGENT_STEPS
     = [[55357, 56589] @ ascii '' Router analyzing query...'',
        [55357, 56538] @ ascii '' Researcher retrieving documents...'',
        [55357, 56599] @ ascii '' KG Builder extracting entities...'',
        [55358, 56800] @ ascii '' Analyst reasoning over context...'']"
proof -
  have k: "(t div 1800) mod 4 < 4" by simp
  have a: "ChatWindow_status (messages (send_start clk1 query1 s1))
             (isLoading (send_start clk1 query1 s1)) t = AgentStatus ((t div 1800) mod 4)"
    by (simp add: ChatWindow_status_def send_start_def Let_def stepIndex_after_mod callbacks_by_def
        INTERVAL_MS_def)
  have b: "ChatWindow_status (messages (send_start clk2 query2 s2))
             (isLoading (send_start clk2 query2 s2)) t = AgentStatus ((t div 1800) mod 4)"
    by (simp add: ChatWindow_status_def send_start_def Let_def stepIndex_after_mod callbacks_by_def
        INTERVAL_MS_def)
  have c: "map agent AGENT_STEPS
     = [ascii ''router'', ascii ''researcher'', ascii ''kg_builder'', ascii ''analyst'']"
    by (simp add: AGENT_STEPS_def)
  have d: "map (\<lambda>st. emoji st @ ascii '' '' @ label st) AGENT_STEPS
     = [[55357, 56589] @ ascii '' Router analyzing query...'',
        [55357, 56538] @ ascii '' Researcher retrieving documents...'',
        [55357, 56599] @ ascii '' KG Builder extracting entities...'',
        [55358, 56800] @ ascii '' Analyst reasoning over context...'']"
    by (simp add: AGENT_STEPS_def ascii_def)
  show ?thesis
    unfolding a b using AgentStatus_steps [OF k] stepIndex_after_mod [of n] c d by simp
qed

theorem status_depends_on_time_only_witness:
  "ChatWindow_status
      (messages (send_start \<lparr>user_id_now = 5, user_ts_now = 5, reply_id_now = 7, reply_ts_now = 8\<rparr>
          (ascii ''What is LangGraph?'') chat_init))
      (isLoading (send_start \<lparr>user_id_now = 5, user_ts_now = 5, reply_id_now = 7, reply_ts_now = 8\<rparr>
          (ascii ''What is LangGraph?'') chat_init)) 4000
   = ChatWindow_status
      (messages (send_start \<lparr>user_id_now = 9, user_ts_now = 9, reply_id_now = 9, reply_ts_now = 9\<rparr>
          (ascii ''How is LangGraph related to LangChain?'') chat_init))
      (isLoading (send_start \<lparr>user_id_now = 9, user_ts_now = 9, reply_id_now = 9, reply_ts_now = 9\<rparr>
          (ascii ''How is LangGraph related to LangChain?'') chat_init)) 4000
   \<and> ChatWindow_status
      (messages (send_start \<lparr>user_id_now = 5, user_ts_now = 5, reply_id_now = 7, reply_ts_now = 8\<rparr>
          (ascii ''What is LangGraph?'') chat_init))
      (isLoading (send_start \<lparr>user_id_now = 5, user_ts_now = 5, reply_id_now = 7, reply_ts_now = 8\<rparr>
          (ascii ''What is LangGraph?'') chat_init)) 4000
   = Some \<lparr>status_text = [55357, 56599] @ ascii '' KG Builder extracting entities...'',
           progress_dots = [True, True, True, False]\<rparr>"
proof -
  have i: "(4000 div 1800) mod 4 = (2::nat)" by simp
  note h = status_depends_on_time_only [of
        "\<lparr>user_id_now = 5, user_ts_now = 5, reply_id_now = 7, reply_ts_now = 8\<rparr>"
        "ascii ''What is LangGraph?''" chat_init 4000
        "\<lparr>user_id_now = 9, user_ts_now = 9, reply_id_now = 9, reply_ts_now = 9\<rparr>"
        "ascii ''How is LangGraph related to LangChain?''" chat_init 0]
  have "[Some \<lparr>status_text = [55357, 56589] @ ascii '' Router analyzing query...'',
              progress_dots = [True, False, False, False]\<rparr>,
        Some \<lparr>status_text = [55357, 56538] @ ascii '' Researcher retrieving documents...'',
              progress_dots = [True, True, False, False]\<rparr>,
        Some \<lparr>status_text = [55357, 56599] @ ascii '' KG Builder extracting entities...'',
              progress_dots = [True, True, True, False]\<rparr>,
        Some \<lparr>status_text = [55358, 56800] @ ascii '' Analyst reasoning over context...'',
              progress_dots = [True, True, True, True]\<rparr>] ! ((4000 div 1800) mod 4)
       = Some \<lparr>status_text = [55357, 56599] @ ascii '' KG Builder extracting entities...'',
           progress_dots = [True, True, True, False]\<rparr>"
    unfolding i by simp
  with h show ?thesis by metis
qed


section \<open>Filtering the graph view\<close>

lemma dom_toggleFilter: "dom (toggleFilter t f) = insert t (dom f)"
  by (simp add: toggleFilter_def)

lemma dom_initial_filters: "dom initial_filters = set ENTITY_TYPES"
  by (auto simp: initial_filters_def ENTITY_TYPES_def)

lemma filters_after_snoc: "filters_after (ts @ [t]) = toggleFilter t (filters_after ts)"
  by (simp add: filters_after_def)

lemma dom_filters_after:
  "set ts \<subseteq> set ENTITY_TYPES \<Longrightarrow> dom (filters_after ts) = set ENTITY_TYPES"
proof (induction ts rule: rev_induct)
  case Nil
  show ?case by (simp add: filters_after_def dom_initial_filters)
next
  case (snoc t ts)
  then show ?case by (auto simp: filters_after_snoc dom_toggleFilter)
qed

lemma toggleFilter_twice: "t \<in> dom f \<Longrightarrow> toggleFilter t (toggleFilter t f) = f"
  by (auto simp: toggleFilter_def fun_eq_iff)

lemma toggleFilter_flips: "t \<in> dom f \<Longrightarrow> toggleFilter t f t = map_option Not (f t)"
  by (auto simp: toggleFilter_def)

text \<open>
  Claim C8. After any sequence of clicks on the five checkboxes: the filtered nodes are
  among the fetched nodes; a node whose type is none of the five keys is always displayed
  (so is every node with an upper-case type such as PERSON); toggling one of the five
  types changes the flag of that type only, to its negation, and toggling it twice gives
  back the filter state and the filtered nodes.
\<close>

theorem filtered_nodes_properties:
  assumes "set ts \<subseteq> set ENTITY_TYPES"
  shows "set (filteredNodes (filters_after ts) nodes) \<subseteq> set nodes
       \<and> (\<forall>n \<in> set nodes. node_type n \<notin> set ENTITY_TYPES
             \<longrightarrow> n \<in> set (filteredNodes (filters_after ts) nodes))
       \<and> (\<forall>t \<in> set ENTITY_TYPES.
             (\<forall>t'. t' \<noteq> t \<longrightarrow> toggleFilter t (filters_after ts) t' = filters_after ts t')
             \<and> toggleFilter t (filters_after ts) t = map_option Not (filters_after ts t)
             \<and> filters_after ts t \<noteq> None
             \<and> toggleFilter t (toggleFilter t (filters_after ts)) = filters_after ts
             \<and> filteredNodes (toggleFilter t (toggleFilter t (filters_after ts))) nodes
                 = filteredNodes (filters_after ts) nodes)"
proof -
  have d: "dom (filters_after ts) = set ENTITY_TYPES"
    using assms by (rule dom_filters_after)
  have a: "set (filteredNodes (filters_after ts) nodes) \<subseteq> set nodes"
    by (simp add: filteredNodes_def)
  have b: "\<forall>n \<in> set nodes. node_type n \<notin> set ENTITY_TYPES
             \<longrightarrow> n \<in> set (filteredNodes (filters_after ts) nodes)"
  proof (intro ballI impI)
    fix n assume "n \<in> set nodes" and "node_type n \<notin> set ENTITY_TYPES"
    with d have "filters_after ts (node_type n) = None" by (metis domIff)
    with \<open>n \<in> set nodes\<close> show "n \<in> set (filteredNodes (filters_after ts) nodes)"
      by (simp add: filteredNodes_def)
  qed
  have c: "\<forall>t \<in> set ENTITY_TYPES.
             (\<forall>t'. t' \<noteq> t \<longrightarrow> toggleFilter t (filters_after ts) t' = filters_after ts t')
             \<and> toggleFilter t (filters_after ts) t = map_option Not (filters_after ts t)
             \<and> filters_after ts t \<noteq> None
             \<and> toggleFilter t (toggleFilter t (filters_after ts)) = filters_after ts
             \<and> filteredNodes (toggleFilter t (toggleFilter t (filters_after ts))) nodes
                 = filteredNodes (filters_after ts) nodes"
  proof
    fix t assume "t \<in> set ENTITY_TYPES"
    with d have td: "t \<in> dom (filters_after ts)" by simp
    then show "(\<forall>t'. t' \<noteq> t \<longrightarrow> toggleFilter t (filters_after ts) t' = filters_after ts t')
             \<and> toggleFilter t (filters_after ts) t = map_option Not (filters_after ts t)
             \<and> filters_after ts t \<noteq> None
             \<and> toggleFilter t (toggleFilter t (filters_after ts)) = filters_after ts
             \<and> filteredNodes (toggleFilter t (toggleFilter t (filters_after ts))) nodes
                 = filteredNodes (filters_after ts) nodes"
      by (simp add: toggleFilter_twice toggleFilter_flips domIff) (simp add: toggleFilter_def)
  qed
  from a b c show ?thesis by blast
qed

theorem filtered_nodes_properties_witness:
  "set [ascii ''Person'', ascii ''Event'', ascii ''Person''] \<subseteq> set ENTITY_TYPES
   \<and> \<lparr>node_id = ascii ''2'', node_name = ascii ''Ada'', node_type = ascii ''PERSON''\<rparr>
      \<in> set (filteredNodes (filters_after [ascii ''Person'', ascii ''Event'', ascii ''Person''])
           [\<lparr>node_id = ascii ''1'', node_name = ascii ''Neo4j'', node_type = ascii ''Event''\<rparr>,
            \<lparr>node_id = ascii ''2'', node_name = ascii ''Ada'', node_type = ascii ''PERSON''\<rparr>])
   \<and> toggleFilter (ascii ''Event'') (toggleFilter (ascii ''Event'')
         (filters_after [ascii ''Person'', ascii ''Event'', ascii ''Person'']))
      = filters_after [ascii ''Person'', ascii ''Event'', ascii ''Person'']"
proof -
  have s: "set [ascii ''Person'', ascii ''Event'', ascii ''Person''] \<subseteq> set ENTITY_TYPES"
    by (simp add: ENTITY_TYPES_def)
  have u: "ascii ''PERSON'' \<notin> set ENTITY_TYPES"
    by (simp add: ENTITY_TYPES_def ascii_def)
  have e: "ascii ''Event'' \<in> set ENTITY_TYPES"
    by (simp add: ENTITY_TYPES_def)
  from filtered_nodes_properties [OF s, of
      "[\<lparr>node_id = ascii ''1'', node_name = ascii ''Neo4j'', node_type = ascii ''Event''\<rparr>,
        \<lparr>node_id = ascii ''2'', node_name = ascii ''Ada'', node_type = ascii ''PERSON''\<rparr>]"]
    s u e
  show ?thesis by simp
qed


section \<open>Properties of binary64 rounding\<close>

lemma flog2_bounds:
  assumes "0 < x"
  shows "2 powi flog2 x \<le> x \<and> x < 2 powi (flog2 x + 1)"
proof (cases "1 \<le> x")
  case True
  then have p: "0 < \<lfloor>x\<rfloor>" by simp
  let ?b = "bitlen \<lfloor>x\<rfloor>"
  from bitlen_bounds [OF p] have lo: "2 ^ nat (?b - 1) \<le> \<lfloor>x\<rfloor>" and hi: "\<lfloor>x\<rfloor> < 2 ^ nat ?b"
    by simp_all
  have b1: "1 \<le> ?b" using p by (simp add: bitlen_alt_def)
  have "(2::rat) powi (?b - 1) = of_int (2 ^ nat (?b - 1))"
    using b1 by (simp add: power_int_def)
  also have "\<dots> \<le> of_int \<lfloor>x\<rfloor>" using lo by (simp only: of_int_le_iff)
  also have "\<dots> \<le> x" by simp
  finally have l: "2 powi (?b - 1) \<le> x" .
  have "\<lfloor>x\<rfloor> + 1 \<le> 2 ^ nat ?b" using hi by simp
  then have "of_int (\<lfloor>x\<rfloor> + 1) \<le> (of_int (2 ^ nat ?b) :: rat)" by (simp only: of_int_le_iff)
  moreover have "x < of_int (\<lfloor>x\<rfloor> + 1)" using floor_correct [of x] by simp
  ultimately have "x < of_int (2 ^ nat ?b)" by linarith
  also have "\<dots> = (2::rat) powi ?b" using b1 by (simp add: power_int_def)
  finally have "x < 2 powi ?b" .
  with l True show ?thesis by (simp add: flog2_def)
next
  case False
  then have x1: "x < 1" by simp
  let ?y = "1 / x"
  have y1: "1 < ?y" using assms x1 by simp
  let ?c = "\<lceil>?y\<rceil>"
  have c2: "2 \<le> ?c" using y1 by (simp add: le_ceiling_iff)
  then have p: "0 < ?c - 1" by simp
  let ?n = "bitlen (?c - 1)"
  from bitlen_bounds [OF p] have lo: "2 ^ nat (?n - 1) \<le> ?c - 1" and hi: "?c - 1 < 2 ^ nat ?n"
    by simp_all
  have n1: "1 \<le> ?n" using p by (simp add: bitlen_alt_def)
  have "?y \<le> of_int ?c" by simp
  also have "\<dots> \<le> of_int (2 ^ nat ?n)" using hi by (simp only: of_int_le_iff)
  also have "\<dots> = (2::rat) powi ?n" using n1 by (simp add: power_int_def)
  finally have yhi: "?y \<le> 2 powi ?n" .
  have "(2::rat) powi (?n - 1) = of_int (2 ^ nat (?n - 1))" using n1 by (simp add: power_int_def)
  also have "\<dots> \<le> of_int (?c - 1)" using lo by (simp only: of_int_le_iff)
  also have "\<dots> < ?y" using ceiling_correct [of ?y] by simp
  finally have ylo: "2 powi (?n - 1) < ?y" .
  have pos: "0 < (2::rat) powi ?n" "0 < (2::rat) powi (?n - 1)" by simp_all
  have a: "2 powi (- ?n) \<le> x"
  proof -
    from yhi have "1 \<le> 2 powi ?n * x" by (simp add: pos_divide_le_eq [OF assms])
    then have "1 / 2 powi ?n \<le> x"
      by (simp add: pos_divide_le_eq [OF pos(1)] mult.commute)
    then show ?thesis by (simp add: power_int_minus_divide)
  qed
  have b: "x < 2 powi (- ?n + 1)"
  proof -
    from ylo have "2 powi (?n - 1) * x < 1" by (simp add: pos_less_divide_eq [OF assms])
    then have "x < 1 / 2 powi (?n - 1)"
      by (simp add: pos_less_divide_eq [OF pos(2)] mult.commute)
    moreover have "(2::rat) powi (- ?n + 1) = 1 / 2 powi (?n - 1)"
      using power_int_minus_divide [of "2::rat" "?n - 1"] by simp
    ultimately show ?thesis by simp
  qed
  from a b False show ?thesis by (simp add: flog2_def)
qed

lemma flog2_unique:
  assumes "0 < x" and "2 powi k \<le> x" and "x < 2 powi (k + 1)"
  shows "flog2 x = k"
proof (rule ccontr)
  assume ne: "flog2 x \<noteq> k"
  note b = flog2_bounds [OF assms(1)]
  show False
  proof (cases "flog2 x < k")
    case True
    then have "(2::rat) powi (flog2 x + 1) \<le> 2 powi k"
      by (intro power_int_increasing) simp_all
    with b assms(2) show False by linarith
  next
    case False
    with ne have "k + 1 \<le> flog2 x" by simp
    then have "(2::rat) powi (k + 1) \<le> 2 powi flog2 x"
      by (intro power_int_increasing) simp_all
    with b assms(3) show False by linarith
  qed
qed

lemma flog2_mono:
  assumes "0 < x" and "x \<le> y"
  shows "flog2 x \<le> flog2 y"
proof (rule ccontr)
  assume "\<not> flog2 x \<le> flog2 y"
  then have "flog2 y + 1 \<le> flog2 x" by simp
  then have "(2::rat) powi (flog2 y + 1) \<le> 2 powi flog2 x"
    by (intro power_int_increasing) simp_all
  moreover from assms have "0 < y" by simp
  ultimately show False
    using flog2_bounds [OF assms(1)] flog2_bounds [OF \<open>0 < y\<close>] assms(2) by linarith
qed

lemma round_even_cases: "round_even x = \<lfloor>x\<rfloor> \<or> round_even x = \<lfloor>x\<rfloor> + 1"
  by (simp add: round_even_def Let_def)

lemma round_even_of_int [simp]: "round_even (of_int n) = n"
  by (simp add: round_even_def Let_def)

lemma round_even_ge: "of_int n \<le> x \<Longrightarrow> n \<le> round_even x"
  using round_even_cases [of x] by (auto simp: le_floor_iff [symmetric])

lemma round_even_le: "x \<le> of_int n \<Longrightarrow> round_even x \<le> n"
proof (cases "x = of_int n")
  case True
  then show ?thesis by simp
next
  case False
  assume "x \<le> of_int n"
  with False have "x < of_int n" by simp
  then have "\<lfloor>x\<rfloor> < n" by (simp add: floor_less_iff)
  then show ?thesis using round_even_cases [of x] by auto
qed

lemma round_even_mono:
  assumes "x \<le> y"
  shows "round_even x \<le> round_even y"
proof (cases "\<lfloor>x\<rfloor> = \<lfloor>y\<rfloor>")
  case True
  with assms have "x - of_int \<lfloor>x\<rfloor> \<le> y - of_int \<lfloor>y\<rfloor>" by simp
  with True show ?thesis by (auto simp: round_even_def Let_def)
next
  case False
  with assms have "\<lfloor>x\<rfloor> < \<lfloor>y\<rfloor>" using floor_mono [of x y] by simp
  then have "round_even x \<le> \<lfloor>y\<rfloor>" using round_even_cases [of x] by auto
  also have "\<dots> \<le> round_even y" using round_even_cases [of y] by auto
  finally show ?thesis .
qed

lemma round_even_nonneg: "0 \<le> x \<Longrightarrow> 0 \<le> round_even x"
  using round_even_ge [of 0 x] by simp

lemma quantum_pos: "0 < quantum a"
  by (simp add: quantum_def)

lemma quantum_52: "quantum a * 2 ^ 52 = 2 powi max (flog2 a) (- 1022)"
proof -
  have "(2::rat) powi (max (flog2 a) (- 1022) - 52) = 2 powi max (flog2 a) (- 1022) / 2 powi 52"
    by (rule power_int_diff) simp
  then show ?thesis by (simp add: quantum_def)
qed

lemma quantum_53: "quantum a * 2 ^ 53 = 2 powi (max (flog2 a) (- 1022) + 1)"
proof -
  have "(2::rat) powi (max (flog2 a) (- 1022) + 1) = 2 powi max (flog2 a) (- 1022) * 2"
    by (simp add: power_int_add)
  also have "\<dots> = quantum a * 2 ^ 52 * 2" by (simp only: quantum_52)
  finally show ?thesis by simp
qed

lemma binary64_pos: "0 < x \<Longrightarrow> binary64 x = of_int (round_even (x / quantum x)) * quantum x"
  by (simp add: binary64_def)

lemma binary64_zero [simp]: "binary64 0 = 0"
  by (simp add: binary64_def)

lemma binary64_nonneg: "0 \<le> x \<Longrightarrow> 0 \<le> binary64 x"
proof (cases "x = 0")
  case True then show ?thesis by simp
next
  case False
  assume "0 \<le> x"
  with False have p: "0 < x" by simp
  have "0 \<le> x / quantum x" using p quantum_pos [of x] by simp
  then have "0 \<le> round_even (x / quantum x)" by (rule round_even_nonneg)
  then show ?thesis using quantum_pos [of x] by (simp add: binary64_pos [OF p])
qed

lemma binary64_upper:
  assumes "0 < x"
  shows "binary64 x \<le> 2 powi (max (flog2 x) (- 1022) + 1)"
proof -
  let ?q = "quantum x"
  have "x < 2 powi (flog2 x + 1)" using flog2_bounds [OF assms] by simp
  also have "\<dots> \<le> 2 powi (max (flog2 x) (- 1022) + 1)"
    by (intro power_int_increasing) simp_all
  also have "\<dots> = ?q * 2 ^ 53" by (simp only: quantum_53)
  finally have "x / ?q < 2 ^ 53"
    using quantum_pos [of x] by (simp add: pos_divide_less_eq mult.commute)
  then have "x / ?q \<le> of_int (2 ^ 53)" by simp
  then have "round_even (x / ?q) \<le> 2 ^ 53" by (rule round_even_le)
  then have "(of_int (round_even (x / ?q)) :: rat) \<le> of_int (2 ^ 53)" by (simp only: of_int_le_iff)
  then have "of_int (round_even (x / ?q)) * ?q \<le> of_int (2 ^ 53) * ?q"
    using quantum_pos [of x] by (intro mult_right_mono) simp_all
  also have "\<dots> = 2 powi (max (flog2 x) (- 1022) + 1)"
    using quantum_53 [of x] by (simp add: mult.commute)
  finally show ?thesis by (simp only: binary64_pos [OF assms])
qed

lemma binary64_lower:
  assumes "0 < x" and "- 1022 \<le> flog2 x"
  shows "2 powi flog2 x \<le> binary64 x"
proof -
  let ?q = "quantum x"
  have m: "max (flog2 x) (- 1022) = flog2 x" using assms(2) by simp
  have "?q * 2 ^ 52 = 2 powi flog2 x" using quantum_52 [of x] by (simp only: m)
  also have "\<dots> \<le> x" using flog2_bounds [OF assms(1)] by simp
  finally have "2 ^ 52 \<le> x / ?q"
    using quantum_pos [of x] by (simp add: pos_le_divide_eq mult.commute)
  then have "of_int (2 ^ 52) \<le> x / ?q" by simp
  then have "2 ^ 52 \<le> round_even (x / ?q)" by (rule round_even_ge)
  then have "(of_int (2 ^ 52) :: rat) \<le> of_int (round_even (x / ?q))" by (simp only: of_int_le_iff)
  then have "of_int (2 ^ 52) * ?q \<le> of_int (round_even (x / ?q)) * ?q"
    using quantum_pos [of x] by (intro mult_right_mono) simp_all
  moreover have "of_int (2 ^ 52) * ?q = 2 powi flog2 x"
    using quantum_52 [of x] by (simp add: m mult.commute)
  ultimately show ?thesis by (simp only: binary64_pos [OF assms(1)])
qed

lemma binary64_mono:
  assumes "0 \<le> x" and "x \<le> y"
  shows "binary64 x \<le> binary64 y"
proof (cases "x = 0")
  case True
  with assms show ?thesis using binary64_nonneg [of y] by simp
next
  case False
  with assms have px: "0 < x" and py: "0 < y" by simp_all
  let ?ex = "max (flog2 x) (- 1022)" and ?ey = "max (flog2 y) (- 1022)"
  have le: "?ex \<le> ?ey" using flog2_mono [OF px assms(2)] by simp
  show ?thesis
  proof (cases "?ex = ?ey")
    case True
    then have q: "quantum x = quantum y" by (simp add: quantum_def)
    have "x / quantum y \<le> y / quantum y"
      using assms(2) quantum_pos [of y] by (simp add: divide_right_mono)
    then have "round_even (x / quantum y) \<le> round_even (y / quantum y)" by (rule round_even_mono)
    then have "(of_int (round_even (x / quantum y)) :: rat) \<le> of_int (round_even (y / quantum y))"
      by (simp only: of_int_le_iff)
    then have "of_int (round_even (x / quantum y)) * quantum y
                 \<le> of_int (round_even (y / quantum y)) * quantum y"
      using quantum_pos [of y] by (intro mult_right_mono) simp_all
    then show ?thesis by (simp only: binary64_pos [OF px] binary64_pos [OF py] q)
  next
    case False
    with le have lt: "?ex + 1 \<le> ?ey" by simp
    then have n: "- 1022 \<le> flog2 y" and m: "?ey = flog2 y" by auto
    have "binary64 x \<le> 2 powi (?ex + 1)" by (rule binary64_upper [OF px])
    also have "\<dots> \<le> 2 powi ?ey" using lt by (intro power_int_increasing) simp_all
    also have "\<dots> = 2 powi flog2 y" by (simp only: m)
    also have "\<dots> \<le> binary64 y" by (rule binary64_lower [OF py n])
    finally show ?thesis .
  qed
qed

lemma quantum_eqI: "max (flog2 a) (- 1022) = max (flog2 b) (- 1022) \<Longrightarrow> quantum a = quantum b"
  by (simp add: quantum_def)

lemma round_even_small:
  assumes "0 < x"
  shows "0 \<le> round_even (x / quantum x) \<and> round_even (x / quantum x) \<le> 2 ^ 53"
proof -
  have "x < 2 powi (flog2 x + 1)" using flog2_bounds [OF assms] by simp
  also have "\<dots> \<le> 2 powi (max (flog2 x) (- 1022) + 1)"
    by (intro power_int_increasing) simp_all
  also have "\<dots> = quantum x * 2 ^ 53" by (simp only: quantum_53)
  finally have "x / quantum x < 2 ^ 53"
    using quantum_pos [of x] by (simp add: pos_divide_less_eq mult.commute)
  then have "x / quantum x \<le> of_int (2 ^ 53)" by simp
  then have "round_even (x / quantum x) \<le> 2 ^ 53" by (rule round_even_le)
  moreover have "0 \<le> x / quantum x" using assms quantum_pos [of x] by simp
  then have "0 \<le> round_even (x / quantum x)" by (rule round_even_nonneg)
  ultimately show ?thesis by simp
qed

lemma round_even_normal:
  assumes "0 < x" and "- 1022 \<le> flog2 x"
  shows "2 ^ 52 \<le> round_even (x / quantum x)"
proof -
  have m: "max (flog2 x) (- 1022) = flog2 x" using assms(2) by simp
  have "quantum x * 2 ^ 52 = 2 powi flog2 x" using quantum_52 [of x] by (simp only: m)
  also have "\<dots> \<le> x" using flog2_bounds [OF assms(1)] by simp
  finally have "2 ^ 52 \<le> x / quantum x"
    using quantum_pos [of x] by (simp add: pos_le_divide_eq mult.commute)
  then have "of_int (2 ^ 52) \<le> x / quantum x" by simp
  then show ?thesis by (rule round_even_ge)
qed

lemma binary64_idem:
  assumes "0 \<le> x"
  shows "binary64 (binary64 x) = binary64 x"
proof (cases "x = 0")
  case True then show ?thesis by simp
next
  case False
  with assms have px: "0 < x" by simp
  let ?q = "quantum x" and ?e = "max (flog2 x) (- 1022)"
  let ?n = "round_even (x / ?q)"
  let ?y = "of_int ?n * ?q :: rat"
  have y: "binary64 x = ?y" by (rule binary64_pos [OF px])
  have qpos: "0 < ?q" by (rule quantum_pos)
  note nb = round_even_small [OF px]
  show ?thesis
  proof (cases "?n = 0")
    case True
    then show ?thesis by (simp add: y)
  next
    case False
    with nb have n1: "1 \<le> ?n" by simp
    then have "0 < (of_int ?n :: rat)" by simp
    with qpos have py: "0 < ?y" by simp
    show ?thesis
    proof (cases "?n = 2 ^ 53")
      case True
      then have y2: "?y = 2 powi (?e + 1)" using quantum_53 [of x] by (simp add: mult.commute)
      have lt: "(2::rat) powi (?e + 1) < 2 powi (?e + 1 + 1)"
        by (intro power_int_strict_increasing) simp_all
      have f: "flog2 ?y = ?e + 1"
      proof (rule flog2_unique)
        show "0 < ?y" by (rule py)
        show "2 powi (?e + 1) \<le> ?y" using y2 by linarith
        show "?y < 2 powi (?e + 1 + 1)" using y2 lt by linarith
      qed
      have m: "max (flog2 ?y) (- 1022) = ?e + 1" using f by simp
      have q2: "quantum ?y = ?q * 2"
      proof -
        have qx: "?q = 2 powi (?e - 52)" by (rule quantum_def)
        have "quantum ?y = 2 powi (max (flog2 ?y) (- 1022) - 52)" by (rule quantum_def)
        also have "\<dots> = 2 powi (?e + 1 - 52)" by (simp only: m)
        also have "\<dots> = 2 powi ((?e - 52) + 1)" by (simp add: algebra_simps)
        also have "\<dots> = 2 powi (?e - 52) * 2" by (rule power_int_add_1) simp
        finally show ?thesis by (simp only: qx [symmetric])
      qed
      have "?y / quantum ?y = ?y / (?q * 2)" by (simp only: q2)
      also have "\<dots> = of_int (2 ^ 52)" using qpos by (simp add: True)
      finally have "round_even (?y / quantum ?y) = 2 ^ 52" by (simp only: round_even_of_int)
      then have "binary64 ?y = of_int (2 ^ 52) * (?q * 2)"
        by (simp only: binary64_pos [OF py] q2)
      also have "\<dots> = ?y" by (simp add: True)
      finally show ?thesis by (simp only: y)
    next
      case False
      with nb have n53: "?n < 2 ^ 53" by simp
      have m: "max (flog2 ?y) (- 1022) = ?e"
      proof (cases "2 ^ 52 \<le> ?n")
        case True
        then have "(of_int (2 ^ 52) :: rat) \<le> of_int ?n" by (simp only: of_int_le_iff)
        then have "of_int (2 ^ 52) * ?q \<le> ?y" using qpos by (intro mult_right_mono) simp_all
        then have lo: "2 powi ?e \<le> ?y" using quantum_52 [of x] by (simp add: mult.commute)
        from n53 have "(of_int ?n :: rat) < of_int (2 ^ 53)" by (simp only: of_int_less_iff)
        then have "?y < of_int (2 ^ 53) * ?q" using qpos by (intro mult_strict_right_mono) simp_all
        then have hi: "?y < 2 powi (?e + 1)" using quantum_53 [of x] by (simp add: mult.commute)
        have "flog2 ?y = ?e" using py lo hi by (rule flog2_unique)
        then show ?thesis by simp
      next
        case False
        then have small: "?n < 2 ^ 52" by simp
        have e: "?e = - 1022"
        proof (rule ccontr)
          assume "?e \<noteq> - 1022"
          then have "- 1022 \<le> flog2 x" by simp
          from round_even_normal [OF px this] small show False by simp
        qed
        from small have "(of_int ?n :: rat) < of_int (2 ^ 52)" by (simp only: of_int_less_iff)
        then have "?y < of_int (2 ^ 52) * ?q" using qpos by (intro mult_strict_right_mono) simp_all
        then have hi: "?y < 2 powi ?e" using quantum_52 [of x] by (simp add: mult.commute)
        have "flog2 ?y < ?e"
        proof (rule ccontr)
          assume "\<not> flog2 ?y < ?e"
          then have le: "?e \<le> flog2 ?y" by (simp only: not_less)
          have "(2::rat) powi ?e \<le> 2 powi flog2 ?y"
            by (rule power_int_increasing [OF le]) simp
          with flog2_bounds [OF py] hi show False by linarith
        qed
        then show ?thesis using e by simp
      qed
      then have q: "quantum ?y = ?q" by (rule quantum_eqI)
      have "?y / ?q = of_int ?n" using qpos by simp
      then have "round_even (?y / ?q) = ?n" by (simp only: round_even_of_int)
      then have "binary64 ?y = ?y" by (simp only: binary64_pos [OF py] q)
      then show ?thesis by (simp only: y)
    qed
  qed
qed

lemma floor_rat_numeral_div: "\<lfloor>numeral a / numeral b :: rat\<rfloor> = numeral a div numeral b"
  by (metis floor_divide_of_int_eq of_int_numeral)

lemma ceiling_rat_numeral_div: "\<lceil>numeral a / numeral b :: rat\<rceil> = - (- numeral a div numeral b)"
  by (metis ceiling_divide_eq_div of_int_numeral)

lemmas binary64_eval =
  binary64_pos quantum_def flog2_def compute_bitlen round_even_def Let_def
  floor_rat_numeral_div ceiling_rat_numeral_div


section \<open>Properties of the fusion ranker\<close>

lemma rank_in_None_iff: "rank_in xs d = None \<longleftrightarrow> d \<notin> set xs"
  by (induction xs) auto

lemma rank_in_Some_mem: "rank_in xs d = Some r \<Longrightarrow> d \<in> set xs"
  using rank_in_None_iff [of xs d] by auto

lemma fusion_key_le_before: "fusion_key a \<le> fusion_key b \<Longrightarrow> fused_before a b"
  by (cases "dense_rank a"; cases "dense_rank b")
     (auto simp: fusion_key_def fused_before_def)

lemma sorted_fused: "sorted_wrt fused_before (sort_key fusion_key cs)"
proof -
  have "sorted (map fusion_key (sort_key fusion_key cs))" by (rule sorted_sort_key)
  then have "sorted_wrt (\<lambda>a b. fusion_key a \<le> fusion_key b) (sort_key fusion_key cs)"
    by (simp add: sorted_map)
  then show ?thesis
    by (rule sorted_wrt_mono_rel [rotated]) (rule fusion_key_le_before)
qed

lemma chunk_id_rrf_candidate: "chunk_id (rrf_candidate dense sparse d) = d"
  by (simp add: rrf_candidate_def)

lemma set_rrf_fuse_subset:
  "set (rrf_fuse dense sparse F) \<subseteq> rrf_candidate dense sparse ` (set dense \<union> set sparse)"
proof -
  have "set (rrf_fuse dense sparse F)
          \<subseteq> set (sort_key fusion_key (map (rrf_candidate dense sparse) (remdups (dense @ sparse))))"
    unfolding rrf_fuse_def by (rule set_take_subset)
  then show ?thesis by auto
qed

lemma length_rrf_fuse: "length (rrf_fuse dense sparse F) = min F (card (set dense \<union> set sparse))"
proof -
  have "length (remdups (dense @ sparse)) = card (set dense \<union> set sparse)"
    by (simp add: length_remdups_card_conv)
  then show ?thesis by (simp add: rrf_fuse_def min.commute)
qed

lemma distinct_rrf_fuse: "distinct (map chunk_id (rrf_fuse dense sparse F))"
proof -
  let ?cs = "map (rrf_candidate dense sparse) (remdups (dense @ sparse))"
  have "inj_on (rrf_candidate dense sparse) (set (remdups (dense @ sparse)))"
    by (rule inj_onI) (metis chunk_id_rrf_candidate)
  then have d: "distinct (sort_key fusion_key ?cs)"
    by (simp add: distinct_map)
  have "inj_on chunk_id (set (sort_key fusion_key ?cs))"
    by (rule inj_onI) (auto simp: chunk_id_rrf_candidate)
  with d have "distinct (map chunk_id (sort_key fusion_key ?cs))"
    by (simp add: distinct_map)
  then have "distinct (take F (map chunk_id (sort_key fusion_key ?cs)))"
    by (rule distinct_take)
  then show ?thesis by (simp add: rrf_fuse_def take_map)
qed

lemma kept_before_dropped:
  assumes "c \<in> set (rrf_fuse dense sparse F)"
    and "d \<in> set dense \<union> set sparse"
    and "d \<notin> chunk_id ` set (rrf_fuse dense sparse F)"
  shows "fused_before c (rrf_candidate dense sparse d)"
proof -
  let ?L = "sort_key fusion_key (map (rrf_candidate dense sparse) (remdups (dense @ sparse)))"
  have "rrf_candidate dense sparse d \<in> set ?L" using assms(2) by auto
  then have "rrf_candidate dense sparse d \<in> set (take F ?L) \<union> set (drop F ?L)"
    by (simp only: set_append [symmetric] append_take_drop_id)
  moreover have "rrf_candidate dense sparse d \<notin> set (take F ?L)"
  proof
    assume "rrf_candidate dense sparse d \<in> set (take F ?L)"
    then have "chunk_id (rrf_candidate dense sparse d) \<in> chunk_id ` set (rrf_fuse dense sparse F)"
      unfolding rrf_fuse_def by (rule imageI)
    with assms(3) show False by (simp add: chunk_id_rrf_candidate)
  qed
  ultimately have dr: "rrf_candidate dense sparse d \<in> set (drop F ?L)" by simp
  have "sorted_wrt fused_before (take F ?L @ drop F ?L)"
    by (simp only: append_take_drop_id sorted_fused)
  then have "\<forall>a \<in> set (take F ?L). \<forall>b \<in> set (drop F ?L). fused_before a b"
    unfolding sorted_wrt_append by blast
  with assms(1) dr show ?thesis unfolding rrf_fuse_def by blast
qed

lemma sorted_rrf_fuse: "sorted_wrt fused_before (rrf_fuse dense sparse F)"
proof -
  let ?L = "sort_key fusion_key (map (rrf_candidate dense sparse) (remdups (dense @ sparse)))"
  have "sorted_wrt fused_before (take F ?L @ drop F ?L)"
    by (simp only: append_take_drop_id sorted_fused)
  then show ?thesis unfolding sorted_wrt_append rrf_fuse_def by blast
qed

lemma binary64_61: "binary64 61 = 61"
  by code_simp

lemma w_dense_nonneg: "0 \<le> w_dense"
  unfolding w_dense_def by (rule binary64_nonneg) simp

lemma w_sparse_nonneg: "0 \<le> w_sparse"
  unfolding w_sparse_def by (rule binary64_nonneg) simp

lemma rrf_term_nonneg: "0 \<le> w \<Longrightarrow> 0 \<le> rrf_term w r"
proof (cases r)
  case None
  then show ?thesis by (simp add: rrf_term_def)
next
  case (Some n)
  assume w: "0 \<le> w"
  have "0 \<le> binary64 (rrf_k + of_nat n)" by (rule binary64_nonneg) (simp add: rrf_k_def)
  with w have "0 \<le> w / binary64 (rrf_k + of_nat n)" by simp
  then have "0 \<le> binary64 (w / binary64 (rrf_k + of_nat n))" by (rule binary64_nonneg)
  with Some show ?thesis by (simp add: rrf_term_def)
qed

lemma rrf_term_first:
  assumes "0 \<le> w" and "1 \<le> n"
  shows "rrf_term w (Some n) \<le> rrf_term w (Some 1)"
proof -
  have "(61::rat) \<le> rrf_k + of_nat n"
  proof -
    have "(1::rat) \<le> of_nat n" using assms(2) by simp
    then show ?thesis by (simp add: rrf_k_def)
  qed
  then have "binary64 61 \<le> binary64 (rrf_k + of_nat n)" by (intro binary64_mono) simp_all
  then have le: "61 \<le> binary64 (rrf_k + of_nat n)" by (simp only: binary64_61)
  have one: "binary64 (rrf_k + 1) = 61" by (simp add: rrf_k_def binary64_61)
  have "w / binary64 (rrf_k + of_nat n) \<le> w / 61"
    using le assms(1) by (intro divide_left_mono) simp_all
  moreover have "0 \<le> w / binary64 (rrf_k + of_nat n)"
    using le assms(1) by simp
  ultimately have "binary64 (w / binary64 (rrf_k + of_nat n)) \<le> binary64 (w / 61)"
    by (intro binary64_mono)
  then show ?thesis by (simp add: rrf_term_def one)
qed

lemma rrf_term_alone:
  assumes "0 \<le> w"
  shows "binary64 (rrf_term w r) = rrf_term w r"
proof (cases r)
  case None
  then show ?thesis by (simp add: rrf_term_def)
next
  case (Some n)
  have "0 \<le> binary64 (rrf_k + of_nat n)" by (rule binary64_nonneg) (simp add: rrf_k_def)
  with assms have "0 \<le> w / binary64 (rrf_k + of_nat n)" by simp
  then have "binary64 (binary64 (w / binary64 (rrf_k + of_nat n)))
               = binary64 (w / binary64 (rrf_k + of_nat n))"
    by (rule binary64_idem)
  with Some show ?thesis by (simp add: rrf_term_def)
qed

text \<open>
  Rounding decides near ties: the rank pairs (6, 17) and (10, 10) both give 1/70 in exact
  arithmetic, and different binary64 scores, the second the higher one.
\<close>

lemma rrf_near_tie:
  "fused_score (rrf_candidate [1, 2, 3, 4, 5, 100, 7, 8, 9, 200 :: nat]
       [11, 12, 13, 14, 15, 16, 17, 18, 19, 200, 21, 22, 23, 24, 25, 26, 100] 100)
     = 8235153604334621 / 576460752303423488
   \<and> fused_score (rrf_candidate [1, 2, 3, 4, 5, 100, 7, 8, 9, 200 :: nat]
       [11, 12, 13, 14, 15, 16, 17, 18, 19, 200, 21, 22, 23, 24, 25, 26, 100] 200)
     = 4117576802167311 / 288230376151711744
   \<and> map chunk_id (rrf_fuse [1, 2, 3, 4, 5, 100, 7, 8, 9, 200 :: nat]
       [11, 12, 13, 14, 15, 16, 17, 18, 19, 200, 21, 22, 23, 24, 25, 26, 100] 1) = [200]"
  by (simp add: rrf_fuse_def rrf_candidate_def rrf_term_def rrf_k_def w_dense_def w_sparse_def
      fusion_key_def binary64_eval)

text \<open>
  Claim C5. Every candidate of the fused list is a chunk of the dense or the sparse list
  and carries the score \<open>0.6 / (60 + rank_dense) + 0.4 / (60 + rank_sparse)\<close>, computed in
  binary64, where the term of a list the chunk is absent from is 0, so that the score of
  a chunk in one list only is that list's term alone. The fused list has \<open>F\<close> candidates,
  or all of them when there are fewer, no chunk twice; it is sorted by descending score,
  ties broken by the lower dense rank and then by the chunk id, and every candidate kept
  stands before every candidate cut off. A chunk ranked first in both lists scores at
  least as high as any chunk ranked lower in both.
\<close>

theorem rrf_fusion_properties:
  fixes dense sparse :: "('a::linorder) list"
  shows "(\<forall>c \<in> set (rrf_fuse dense sparse F).
            chunk_id c \<in> set dense \<union> set sparse
            \<and> dense_rank c = rank_in dense (chunk_id c)
            \<and> sparse_rank c = rank_in sparse (chunk_id c)
            \<and> (dense_rank c = None) = (chunk_id c \<notin> set dense)
            \<and> (sparse_rank c = None) = (chunk_id c \<notin> set sparse)
            \<and> fused_score c
                = binary64
                    ((case dense_rank c of None \<Rightarrow> 0
                      | Some r \<Rightarrow> binary64 (binary64 (6 / 10) / binary64 (60 + of_nat r)))
                     + (case sparse_rank c of None \<Rightarrow> 0
                        | Some r \<Rightarrow> binary64 (binary64 (4 / 10) / binary64 (60 + of_nat r))))
            \<and> (sparse_rank c = None \<longrightarrow>
                  fused_score c
                    = (case dense_rank c of None \<Rightarrow> 0
                       | Some r \<Rightarrow> binary64 (binary64 (6 / 10) / binary64 (60 + of_nat r))))
            \<and> (dense_rank c = None \<longrightarrow>
                  fused_score c
                    = (case sparse_rank c of None \<Rightarrow> 0
                       | Some r \<Rightarrow> binary64 (binary64 (4 / 10) / binary64 (60 + of_nat r)))))
       \<and> length (rrf_fuse dense sparse F) = min F (card (set dense \<union> set sparse))
       \<and> distinct (map chunk_id (rrf_fuse dense sparse F))
       \<and> sorted_wrt fused_before (rrf_fuse dense sparse F)
       \<and> (\<forall>c \<in> set (rrf_fuse dense sparse F). \<forall>d \<in> set dense \<union> set sparse.
             d \<notin> chunk_id ` set (rrf_fuse dense sparse F)
             \<longrightarrow> fused_before c (rrf_candidate dense sparse d))
       \<and> (\<forall>d1 d2 i j. rank_in dense d1 = Some 1 \<and> rank_in sparse d1 = Some 1
              \<and> rank_in dense d2 = Some i \<and> rank_in sparse d2 = Some j \<and> 1 < i \<and> 1 < j
            \<longrightarrow> fused_score (rrf_candidate dense sparse d2)
                  \<le> fused_score (rrf_candidate dense sparse d1))"
proof -
  have a: "\<forall>c \<in> set (rrf_fuse dense sparse F).
            chunk_id c \<in> set dense \<union> set sparse
            \<and> dense_rank c = rank_in dense (chunk_id c)
            \<and> sparse_rank c = rank_in sparse (chunk_id c)
            \<and> (dense_rank c = None) = (chunk_id c \<notin> set dense)
            \<and> (sparse_rank c = None) = (chunk_id c \<notin> set sparse)
            \<and> fused_score c
                = binary64
                    ((case dense_rank c of None \<Rightarrow> 0
                      | Some r \<Rightarrow> binary64 (binary64 (6 / 10) / binary64 (60 + of_nat r)))
                     + (case sparse_rank c of None \<Rightarrow> 0
                        | Some r \<Rightarrow> binary64 (binary64 (4 / 10) / binary64 (60 + of_nat r))))
            \<and> (sparse_rank c = None \<longrightarrow>
                  fused_score c
                    = (case dense_rank c of None \<Rightarrow> 0
                       | Some r \<Rightarrow> binary64 (binary64 (6 / 10) / binary64 (60 + of_nat r))))
            \<and> (dense_rank c = None \<longrightarrow>
                  fused_score c
                    = (case sparse_rank c of None \<Rightarrow> 0
                       | Some r \<Rightarrow> binary64 (binary64 (4 / 10) / binary64 (60 + of_nat r))))"
  proof
    fix c assume "c \<in> set (rrf_fuse dense sparse F)"
    with set_rrf_fuse_subset obtain d
      where d: "d \<in> set dense \<union> set sparse" and c: "c = rrf_candidate dense sparse d"
      by blast
    have td: "rrf_term w_dense (rank_in dense d)
                = (case rank_in dense d of None \<Rightarrow> 0
                   | Some r \<Rightarrow> binary64 (binary64 (6 / 10) / binary64 (60 + of_nat r)))"
      by (cases "rank_in dense d") (simp_all add: rrf_term_def rrf_k_def w_dense_def)
    have ts: "rrf_term w_sparse (rank_in sparse d)
                = (case rank_in sparse d of None \<Rightarrow> 0
                   | Some r \<Rightarrow> binary64 (binary64 (4 / 10) / binary64 (60 + of_nat r)))"
      by (cases "rank_in sparse d") (simp_all add: rrf_term_def rrf_k_def w_sparse_def)
    have s: "fused_score c
               = binary64 (rrf_term w_dense (rank_in dense d) + rrf_term w_sparse (rank_in sparse d))"
      by (simp add: c rrf_candidate_def)
    have s1: "rank_in sparse d = None \<longrightarrow> fused_score c = rrf_term w_dense (rank_in dense d)"
      using rrf_term_alone [OF w_dense_nonneg, of "rank_in dense d"]
      by (simp add: s rrf_term_def)
    have s2: "rank_in dense d = None \<longrightarrow> fused_score c = rrf_term w_sparse (rank_in sparse d)"
      using rrf_term_alone [OF w_sparse_nonneg, of "rank_in sparse d"]
      by (simp add: s rrf_term_def)
    have r: "chunk_id c = d" "dense_rank c = rank_in dense d" "sparse_rank c = rank_in sparse d"
      by (simp_all add: c rrf_candidate_def)
    show "chunk_id c \<in> set dense \<union> set sparse
            \<and> dense_rank c = rank_in dense (chunk_id c)
            \<and> sparse_rank c = rank_in sparse (chunk_id c)
            \<and> (dense_rank c = None) = (chunk_id c \<notin> set dense)
            \<and> (sparse_rank c = None) = (chunk_id c \<notin> set sparse)
            \<and> fused_score c
                = binary64
                    ((case dense_rank c of None \<Rightarrow> 0
                      | Some r \<Rightarrow> binary64 (binary64 (6 / 10) / binary64 (60 + of_nat r)))
                     + (case sparse_rank c of None \<Rightarrow> 0
                        | Some r \<Rightarrow> binary64 (binary64 (4 / 10) / binary64 (60 + of_nat r))))
            \<and> (sparse_rank c = None \<longrightarrow>
                  fused_score c
                    = (case dense_rank c of None \<Rightarrow> 0
                       | Some r \<Rightarrow> binary64 (binary64 (6 / 10) / binary64 (60 + of_nat r))))
            \<and> (dense_rank c = None \<longrightarrow>
                  fused_score c
                    = (case sparse_rank c of None \<Rightarrow> 0
                       | Some r \<Rightarrow> binary64 (binary64 (4 / 10) / binary64 (60 + of_nat r))))"
      unfolding r using d s s1 s2 by (simp only: td ts rank_in_None_iff)
  qed
  have b: "length (rrf_fuse dense sparse F) = min F (card (set dense \<union> set sparse))"
    by (rule length_rrf_fuse)
  have c: "sorted_wrt fused_before (rrf_fuse dense sparse F)"
    by (rule sorted_rrf_fuse)
  have e: "\<forall>c \<in> set (rrf_fuse dense sparse F). \<forall>d \<in> set dense \<union> set sparse.
             d \<notin> chunk_id ` set (rrf_fuse dense sparse F)
             \<longrightarrow> fused_before c (rrf_candidate dense sparse d)"
    using kept_before_dropped by blast
  have d: "\<forall>d1 d2 i j. rank_in dense d1 = Some 1 \<and> rank_in sparse d1 = Some 1
              \<and> rank_in dense d2 = Some i \<and> rank_in sparse d2 = Some j \<and> 1 < i \<and> 1 < j
            \<longrightarrow> fused_score (rrf_candidate dense sparse d2)
                  \<le> fused_score (rrf_candidate dense sparse d1)"
  proof (intro allI impI)
    fix d1 d2 i j
    assume h: "rank_in dense d1 = Some 1 \<and> rank_in sparse d1 = Some 1
              \<and> rank_in dense d2 = Some i \<and> rank_in sparse d2 = Some j \<and> 1 < i \<and> 1 < j"
    then have i: "1 \<le> i" and j: "1 \<le> j" by simp_all
    have "rrf_term w_dense (Some i) + rrf_term w_sparse (Some j)
            \<le> rrf_term w_dense (Some 1) + rrf_term w_sparse (Some 1)"
      using rrf_term_first [OF w_dense_nonneg i] rrf_term_first [OF w_sparse_nonneg j]
      by linarith
    moreover have "0 \<le> rrf_term w_dense (Some i) + rrf_term w_sparse (Some j)"
      using rrf_term_nonneg [OF w_dense_nonneg, of "Some i"]
        rrf_term_nonneg [OF w_sparse_nonneg, of "Some j"] by linarith
    ultimately have "binary64 (rrf_term w_dense (Some i) + rrf_term w_sparse (Some j))
            \<le> binary64 (rrf_term w_dense (Some 1) + rrf_term w_sparse (Some 1))"
      by (intro binary64_mono)
    with h show "fused_score (rrf_candidate dense sparse d2)
                  \<le> fused_score (rrf_candidate dense sparse d1)"
      by (simp add: rrf_candidate_def)
  qed
  from a b c d e distinct_rrf_fuse [of dense sparse F] show ?thesis by blast
qed

theorem rrf_fusion_properties_witness:
  "map chunk_id (rrf_fuse [''a'', ''b'', ''c''] [''a'', ''c'', ''d''] 2) = [''a'', ''c'']
   \<and> map fused_score (rrf_fuse [''a'', ''b'', ''c''] [''a'', ''c'', ''d''] 2)
       = [2362544066817309 / 144115188075855872, 4604602015326885 / 288230376151711744]
   \<and> length (rrf_fuse [''a'', ''b'', ''c''] [''a'', ''c'', ''d''] 2)
       = min 2 (card (set [''a'', ''b'', ''c''] \<union> set [''a'', ''c'', ''d'']))
   \<and> sorted_wrt fused_before (rrf_fuse [''a'', ''b'', ''c''] [''a'', ''c'', ''d''] 2)"
proof -
  have ev: "map chunk_id (rrf_fuse [''a'', ''b'', ''c''] [''a'', ''c'', ''d''] 2) = [''a'', ''c'']
     \<and> map fused_score (rrf_fuse [''a'', ''b'', ''c''] [''a'', ''c'', ''d''] 2)
       = [2362544066817309 / 144115188075855872, 4604602015326885 / 288230376151711744]"
    by (simp add: rrf_fuse_def rrf_candidate_def rrf_term_def rrf_k_def w_dense_def w_sparse_def
        fusion_key_def binary64_eval)
  from rrf_fusion_properties [of "[''a'', ''b'', ''c'']" "[''a'', ''c'', ''d'']" 2] ev
  show ?thesis by blast
qed

end
